theory Spec2Isabelle
  imports Main
begin

section \<open>JavaScript library functions the scripts rely on\<close>

text \<open>
  The scripts are k6 load-test scripts. Strings are modelled as ASCII character lists, so
  that \<open>length\<close> is what JavaScript's \<open>.length\<close> returns; numbers that the scripts
  handle are integers (virtual-user ids, iteration numbers, lengths, row counts, clock
  readings in milliseconds) and are modelled as \<open>nat\<close> or \<open>int\<close>.
\<close>

subsection \<open>Number to string, as a template literal renders it\<close>

definition digit_char :: "nat \<Rightarrow> char" where
  "digit_char d = ''0123456789'' ! d"

text \<open>\<open>`${n}`\<close> for a non-negative integer \<open>n\<close> (below \<open>10^21\<close>, where JavaScript
  switches to exponent notation): its decimal digits, most significant first.\<close>

fun js_nat_str :: "nat \<Rightarrow> string" where
  "js_nat_str n =
     (if n < 10 then [digit_char n]
      else js_nat_str (n div 10) @ [digit_char (n mod 10)])"

declare js_nat_str.simps [simp del]

subsection \<open>\<open>String.prototype.includes\<close> and \<open>String.prototype.split\<close>\<close>

fun str_includes :: "string \<Rightarrow> string \<Rightarrow> bool" where
  "str_includes [] sub = (sub = [])"
| "str_includes (c # cs) sub = (take (length sub) (c # cs) = sub \<or> str_includes cs sub)"

text \<open>\<open>s.split(sep)\<close> for a one-character separator: never the empty list.\<close>

fun split_on :: "char \<Rightarrow> string \<Rightarrow> string list" where
  "split_on sep [] = [[]]"
| "split_on sep (c # cs) =
     (if c = sep then [] # split_on sep cs
      else (case split_on sep cs of
              [] \<Rightarrow> [[c]]
            | w # ws \<Rightarrow> (c # w) # ws))"

subsection \<open>\<open>parseInt\<close>\<close>

text \<open>
  \<open>parseInt(s)\<close> with no radix: leading white space is skipped, one sign is read, a
  \<open>0x\<close> or \<open>0X\<close> prefix selects radix 16, and the longest run of digits of the radix is
  the value. With no digit the result is \<open>NaN\<close>, which is \<open>None\<close> here. (JavaScript
  rounds values beyond \<open>2^53\<close> to a double; the model keeps the exact integer.)
\<close>

definition is_js_space :: "char \<Rightarrow> bool" where
  "is_js_space c = (c \<in> set [CHR 0x09, CHR 0x0A, CHR 0x0B, CHR 0x0C, CHR 0x0D, CHR 0x20])"

definition digit_of :: "char \<Rightarrow> nat option" where
  "digit_of c =
     (let k = (of_char c :: nat) in
      if 48 \<le> k \<and> k \<le> 57 then Some (k - 48)
      else if 97 \<le> k \<and> k \<le> 102 then Some (k - 87)
      else if 65 \<le> k \<and> k \<le> 70 then Some (k - 55)
      else None)"

definition is_digit_in :: "nat \<Rightarrow> char \<Rightarrow> bool" where
  "is_digit_in radix c = (case digit_of c of None \<Rightarrow> False | Some d \<Rightarrow> d < radix)"

definition digits_number :: "nat \<Rightarrow> string \<Rightarrow> nat" where
  "digits_number radix z = foldl (\<lambda>acc c. acc * radix + the (digit_of c)) 0 z"

definition parseInt :: "string \<Rightarrow> int option" where
  "parseInt s =
     (let s1 = dropWhile is_js_space s;
          negative = (take 1 s1 = ''-'');
          s2 = (if take 1 s1 = ''-'' \<or> take 1 s1 = ''+'' then drop 1 s1 else s1);
          hex = (take 2 s2 = ''0x'' \<or> take 2 s2 = ''0X'');
          s3 = (if hex then drop 2 s2 else s2);
          radix = (if hex then 16 else 10);
          z = takeWhile (is_digit_in radix) s3
      in if z = [] then None
         else Some ((if negative then - 1 else 1) * int (digits_number radix z)))"

subsection \<open>The environment: \<open>__ENV\<close>\<close>

type_synonym env = "string \<rightharpoonup> string"

text \<open>\<open>__ENV.NAME || fallback\<close>: an unset variable is \<open>undefined\<close> and a variable set
  to the empty string is falsy as well, so both give the fallback.\<close>

definition env_or :: "env \<Rightarrow> string \<Rightarrow> string \<Rightarrow> string" where
  "env_or e name fallback =
     (case e name of
        None \<Rightarrow> fallback
      | Some s \<Rightarrow> if s = [] then fallback else s)"

subsection \<open>\<open>JSON.stringify\<close> of the message bodies\<close>

text \<open>The message bodies are objects of numbers, strings and one nested object.
  \<open>JSON.stringify\<close> writes the fields in insertion order with no white space, and quotes
  a string escaping the quote, the backslash and the control characters.\<close>

definition hex_char :: "nat \<Rightarrow> char" where
  "hex_char d = ''0123456789abcdef'' ! d"

definition json_escape :: "char \<Rightarrow> string" where
  "json_escape c =
     (let k = (of_char c :: nat) in
      if k = 0x22 then [CHR 0x5C, CHR 0x22]
      else if k = 0x5C then [CHR 0x5C, CHR 0x5C]
      else if k = 0x08 then [CHR 0x5C, CHR ''b'']
      else if k = 0x0C then [CHR 0x5C, CHR ''f'']
      else if k = 0x0A then [CHR 0x5C, CHR ''n'']
      else if k = 0x0D then [CHR 0x5C, CHR ''r'']
      else if k = 0x09 then [CHR 0x5C, CHR ''t'']
      else if k < 0x20 then [CHR 0x5C, CHR ''u'', CHR ''0'', CHR ''0'', hex_char (k div 16), hex_char (k mod 16)]
      else [c])"

definition json_quote :: "string \<Rightarrow> string" where
  "json_quote s = [CHR 0x22] @ concat (map json_escape s) @ [CHR 0x22]"

fun join_with :: "string \<Rightarrow> string list \<Rightarrow> string" where
  "join_with sep [] = []"
| "join_with sep [x] = x"
| "join_with sep (x # y # ys) = x @ sep @ join_with sep (y # ys)"

datatype json = JNumber nat | JString string | JObject "(string \<times> json) list"

fun json_stringify :: "json \<Rightarrow> string" where
  "json_stringify (JNumber n) = js_nat_str n"
| "json_stringify (JString s) = json_quote s"
| "json_stringify (JObject fields) =
     ''{'' @ join_with '','' (map (\<lambda>(k, v). json_quote k @ '':'' @ json_stringify v) fields) @ ''}''"

section \<open>What a script does to the outside: events\<close>

text \<open>
  Everything a script does besides computing is an event: a sample added to a metric
  (\<open>Counter.add\<close>, \<open>Trend.add\<close>, \<open>Rate.add\<close>), the outcome of one named check of
  \<open>check\<close>, a console line, a \<open>sleep\<close>, a call to the Kafka extension or a statement
  sent to the database. A function of a script returns the events of one invocation, oldest
  first. The metric sink of a run is the list of the \<open>Add\<close> events of its trace.
\<close>

datatype level = Info | Warning | Failure

datatype sample = Number int | Boolean bool

record message =
  msg_key :: string
  msg_value :: string

text \<open>A consumed message: \<open>None\<close> is a key or value that is \<open>null\<close> or \<open>undefined\<close>.\<close>

record consumed =
  got_key :: "string option"
  got_value :: "string option"

record reader_cfg =
  rd_brokers :: "string list"
  rd_group_topics :: "string list"
  rd_group_id :: string
  rd_queue_capacity :: nat

datatype kafka_call =
    NewReader reader_cfg
  | Consume nat "int option"
  | CloseReader
  | Produce "message list"
  | CloseWriter
  | NewConnection string
  | ListTopics
  | CreateTopic string nat nat
  | DeleteTopic string
  | CloseConnection

datatype jsval = JUndefined | JNull | JNum int | JStr string

text \<open>The four statements of the CRUD script, with their parameters.\<close>

datatype stmt =
    InsertPerson string string string
  | UpdateLastName string jsval
  | SelectById jsval
  | DeleteById jsval

datatype event =
    Add string sample
  | Check string bool
  | Console level string
  | Sleep nat
  | Kafka kafka_call
  | Sql stmt
  | IterationFailed string

text \<open>How an invocation ends: it returns, or an error nothing caught leaves it.\<close>

datatype outcome = Returned | Threw string

subsection \<open>Reading the metric sink off a trace\<close>

fun samples_of :: "string \<Rightarrow> event list \<Rightarrow> sample list" where
  "samples_of name [] = []"
| "samples_of name (Add n v # evs) =
     (if n = name then v # samples_of name evs else samples_of name evs)"
| "samples_of name (_ # evs) = samples_of name evs"

fun sample_number :: "sample \<Rightarrow> int" where
  "sample_number (Number v) = v"
| "sample_number (Boolean b) = (if b then 1 else 0)"

text \<open>The aggregate of a Counter series: the sum of what was added to it.\<close>

definition counter_total :: "string \<Rightarrow> event list \<Rightarrow> int" where
  "counter_total name evs = sum_list (map sample_number (samples_of name evs))"

fun adds_of :: "event list \<Rightarrow> (string \<times> sample) list" where
  "adds_of [] = []"
| "adds_of (Add n v # evs) = (n, v) # adds_of evs"
| "adds_of (_ # evs) = adds_of evs"

section \<open>The virtual-user loop\<close>

text \<open>
  Modelled from the spec: the scheduler that invokes a script's default function is the
  load-testing tool itself and is not part of the repository. Following section 4.2 of
  the specification, a virtual user invokes the workload once per iteration of its budget
  (here: once per element of the list of per-iteration inputs); when an invocation ends
  with an error nothing caught, the failure is recorded and the loop goes on with the next
  iteration. The event \<open>IterationFailed\<close> is that record: it is what the count of failed
  iterations counts, and it carries the error's text, the line of the log. The workload's
  return value is not inspected: a default function returns \<open>undefined\<close> on every
  path.
\<close>

type_synonym ('i, 'l) workload = "'i \<Rightarrow> 'l \<Rightarrow> 'l \<times> event list \<times> outcome"

fun vu_loop :: "('i, 'l) workload \<Rightarrow> 'i list \<Rightarrow> 'l \<Rightarrow> 'l \<times> event list" where
  "vu_loop w [] l = (l, [])"
| "vu_loop w (i # inputs) l =
     (case w i l of
        (l', evs, out) \<Rightarrow>
          (case vu_loop w inputs l' of
             (l'', rest) \<Rightarrow>
               (l'', evs @ (case out of Returned \<Rightarrow> [] | Threw e \<Rightarrow> [IterationFailed e]) @ rest)))"

text \<open>A workload that keeps no state between invocations.\<close>

definition stateless :: "('i \<Rightarrow> event list \<times> outcome) \<Rightarrow> ('i, unit) workload" where
  "stateless f = (\<lambda>i u. (u, fst (f i), snd (f i)))"

section \<open>The producer scripts\<close>

subsection \<open>Configuration\<close>

record producer_config =
  pc_brokers :: "string list"
  pc_topic :: string
  pc_delete_topic_on_teardown :: bool

text \<open>The improved producer: \<open>KAFKA_BROKERS\<close>, \<open>KAFKA_TOPIC\<close> and
  \<open>DELETE_TOPIC_ON_TEARDOWN\<close>, the last one compared with \<open>===\<close> to \<open>'true'\<close>.\<close>

definition producer_config_of :: "env \<Rightarrow> producer_config" where
  "producer_config_of e =
     \<lparr> pc_brokers = split_on CHR '','' (env_or e ''KAFKA_BROKERS'' ''localhost:9094''),
       pc_topic = env_or e ''KAFKA_TOPIC'' ''my-test-topic'',
       pc_delete_topic_on_teardown = (e ''DELETE_TOPIC_ON_TEARDOWN'' = Some ''true'') \<rparr>"

definition MESSAGES_PER_ITERATION :: nat where
  "MESSAGES_PER_ITERATION = 10"

definition MESSAGE_BODY_SIZE :: nat where
  "MESSAGE_BODY_SIZE = 100"

subsection \<open>The original producer\<close>

text \<open>What one invocation gets from outside: the virtual user's id \<open>__VU\<close>, its iteration
  number \<open>__ITER\<close>, the clock and the random string at each turn of the loop, and whether
  \<open>writer.produce\<close> returned (\<open>None\<close>) or threw an error (\<open>Some\<close> of its text).\<close>

record producer_input =
  pi_vu :: nat
  pi_iter :: nat
  pi_timestamp :: "nat \<Rightarrow> string"
  pi_data :: "nat \<Rightarrow> string"
  pi_produce :: "string option"

definition message_key_v1 :: "nat \<Rightarrow> nat \<Rightarrow> nat \<Rightarrow> string" where
  "message_key_v1 vu iter i =
     ''key-'' @ js_nat_str vu @ ''-'' @ js_nat_str iter @ ''-'' @ js_nat_str i"

definition message_v1 :: "producer_input \<Rightarrow> nat \<Rightarrow> message" where
  "message_v1 inp i =
     \<lparr> msg_key = message_key_v1 (pi_vu inp) (pi_iter inp) i,
       msg_value = json_stringify (JObject
         [(''vu'', JNumber (pi_vu inp)),
          (''iter'', JNumber (pi_iter inp)),
          (''sequence'', JNumber i),
          (''timestamp'', JString (pi_timestamp inp i)),
          (''data'', JString (pi_data inp i))]) \<rparr>"

definition build_messages_v1 :: "producer_input \<Rightarrow> message list" where
  "build_messages_v1 inp = map (message_v1 inp) [0 ..< MESSAGES_PER_ITERATION]"

definition batch_bytes :: "message list \<Rightarrow> nat" where
  "batch_bytes messages =
     foldl (\<lambda>acc msg. acc + length (msg_key msg) + length (msg_value msg)) 0 messages"

definition default_producer_v1 :: "producer_input \<Rightarrow> event list \<times> outcome" where
  "default_producer_v1 inp =
     (let messages = build_messages_v1 inp in
      (Kafka (Produce messages) #
       (case pi_produce inp of
          None \<Rightarrow> [Add ''kafka_produced_bytes'' (Number (int (batch_bytes messages)))]
        | Some err \<Rightarrow>
            [Console Failure
               (''VU '' @ js_nat_str (pi_vu inp) @ '' failed to produce messages: '' @ err)])
       @ [Sleep 1],
       Returned))"

subsection \<open>The improved producer\<close>

record producer2_input =
  p2_vu :: nat
  p2_iter :: nat
  p2_timestamp :: "nat \<Rightarrow> string"
  p2_name :: "nat \<Rightarrow> string"
  p2_email :: "nat \<Rightarrow> string"
  p2_address :: "nat \<Rightarrow> string"
  p2_produce :: "string option"

text \<open>\<open>schemaRegistry.serialize\<close> with \<open>SCHEMA_TYPE_STRING\<close>: the bytes of the string.
  A character of the model is one byte.\<close>

definition serialize_string :: "string \<Rightarrow> string" where
  "serialize_string s = s"

definition message_key_v2 :: "nat \<Rightarrow> nat \<Rightarrow> nat \<Rightarrow> string" where
  "message_key_v2 vu iter i = js_nat_str vu @ ''-'' @ js_nat_str iter @ ''-'' @ js_nat_str i"

definition message_v2 :: "producer2_input \<Rightarrow> nat \<Rightarrow> message" where
  "message_v2 inp i =
     \<lparr> msg_key = serialize_string (message_key_v2 (p2_vu inp) (p2_iter inp) i),
       msg_value = serialize_string (json_stringify (JObject
         [(''vu'', JNumber (p2_vu inp)),
          (''iter'', JNumber (p2_iter inp)),
          (''sequence'', JNumber i),
          (''timestamp'', JString (p2_timestamp inp i)),
          (''user'', JObject
             [(''name'', JString (p2_name inp i)),
              (''email'', JString (p2_email inp i)),
              (''address'', JString (p2_address inp i))])])) \<rparr>"

definition build_messages_v2 :: "producer2_input \<Rightarrow> message list" where
  "build_messages_v2 inp = map (message_v2 inp) [0 ..< MESSAGES_PER_ITERATION]"

definition default_producer_v2 :: "producer2_input \<Rightarrow> event list \<times> outcome" where
  "default_producer_v2 inp =
     (let messages = build_messages_v2 inp in
      (Kafka (Produce messages) #
       (case p2_produce inp of
          None \<Rightarrow>
            [Add ''kafka_produced_bytes'' (Number (int (batch_bytes messages))),
             Add ''kafka_produced_messages'' (Number (int (length messages))),
             Check ''messages produced successfully'' True]
        | Some err \<Rightarrow>
            [Console Failure
               (''VU '' @ js_nat_str (p2_vu inp) @ '' failed to produce messages: '' @ err),
             Check ''messages produced successfully'' False])
       @ [Sleep 1],
       Returned))"

text \<open>Teardown of the improved producer. Each of the three calls may throw; one \<open>try\<close>
  encloses them all, so the first error ends the teardown with a console line.\<close>

record teardown_input =
  td_writer_close :: "string option"
  td_delete_topic :: "string option"
  td_connection_close :: "string option"

definition quoted :: "string \<Rightarrow> string" where
  "quoted s = [CHR 0x27] @ s @ [CHR 0x27]"

definition teardown_producer_v2 :: "producer_config \<Rightarrow> teardown_input \<Rightarrow> event list" where
  "teardown_producer_v2 cfg inp =
     (let failed = (\<lambda>err. [Console Failure (''Teardown error: '' @ err)]);
          closing =
            Kafka CloseConnection #
            (case td_connection_close inp of
               Some err \<Rightarrow> failed err
             | None \<Rightarrow> [Console Info ''Producer test finished.''])
      in Kafka CloseWriter #
         (case td_writer_close inp of
            Some err \<Rightarrow> failed err
          | None \<Rightarrow>
              if pc_delete_topic_on_teardown cfg then
                Kafka (DeleteTopic (pc_topic cfg)) #
                (case td_delete_topic inp of
                   Some err \<Rightarrow> failed err
                 | None \<Rightarrow>
                     Console Info (''Topic '' @ quoted (pc_topic cfg) @ '' deleted.'') # closing)
              else
                Console Info (''Topic '' @ quoted (pc_topic cfg) @ '' preserved for consumers.'')
                # closing))"

text \<open>The messages handed to \<open>writer.produce\<close> in a trace, oldest first.\<close>

fun produced_messages :: "event list \<Rightarrow> message list" where
  "produced_messages [] = []"
| "produced_messages (Kafka (Produce ms) # evs) = ms @ produced_messages evs"
| "produced_messages (_ # evs) = produced_messages evs"

section \<open>The consumer script\<close>

record consumer_config =
  cc_brokers :: "string list"
  cc_topic :: string
  cc_group_id :: string
  cc_consume_timeout_ms :: "int option"
  cc_max_empty_reads :: "int option"

definition consumer_config_of :: "env \<Rightarrow> consumer_config" where
  "consumer_config_of e =
     \<lparr> cc_brokers = split_on CHR '','' (env_or e ''KAFKA_BROKERS'' ''localhost:9092''),
       cc_topic = env_or e ''KAFKA_TOPIC'' ''my-test-topic'',
       cc_group_id = env_or e ''KAFKA_GROUP_ID'' ''k6-consumer-group'',
       cc_consume_timeout_ms = parseInt (env_or e ''CONSUME_TIMEOUT_MS'' ''2000''),
       cc_max_empty_reads = parseInt (env_or e ''MAX_EMPTY_READS'' ''5'') \<rparr>"

text \<open>A number in a template literal; \<open>None\<close> is \<open>NaN\<close>.\<close>

definition js_num_str :: "int option \<Rightarrow> string" where
  "js_num_str x =
     (case x of
        None \<Rightarrow> ''NaN''
      | Some i \<Rightarrow> if i < 0 then ''-'' @ js_nat_str (nat (- i)) else js_nat_str (nat i))"

text \<open>\<open>n >= m\<close> where \<open>m\<close> may be \<open>NaN\<close>: a comparison with \<open>NaN\<close> is false.\<close>

definition js_ge :: "int \<Rightarrow> int option \<Rightarrow> bool" where
  "js_ge n m = (case m of None \<Rightarrow> False | Some k \<Rightarrow> k \<le> n)"

text \<open>What one invocation gets from outside: \<open>__VU\<close>; whether \<open>new Reader\<close> threw (asked
  only when the virtual user has no reader); what \<open>reader.consume\<close> did: it threw
  (\<open>Inl\<close> of the error's text), or returned \<open>null\<close> or \<open>undefined\<close> (\<open>Inr None\<close>) or
  an array of messages; and whether \<open>reader.close\<close> threw.\<close>

record consumer_input =
  ci_vu :: nat
  ci_new_reader :: "string option"
  ci_consume :: "string + consumed list option"
  ci_close :: "string option"

definition reader_of :: "consumer_config \<Rightarrow> reader_cfg" where
  "reader_of cfg =
     \<lparr> rd_brokers = cc_brokers cfg,
       rd_group_topics = [cc_topic cfg],
       rd_group_id = cc_group_id cfg,
       rd_queue_capacity = 1000 \<rparr>"

text \<open>\<open>(msg.key && msg.key.length) || 0\<close>, and the same for the value.\<close>

definition length_or_0 :: "string option \<Rightarrow> nat" where
  "length_or_0 x = (case x of None \<Rightarrow> 0 | Some s \<Rightarrow> length s)"

definition consumed_bytes :: "consumed list \<Rightarrow> nat" where
  "consumed_bytes messages =
     foldl (\<lambda>acc msg. acc + length_or_0 (got_key msg) + length_or_0 (got_value msg)) 0 messages"

text \<open>The branch of an empty read: the counter of empty reads is the local variable
  \<open>emptyReadCount\<close>, which the invocation has set to \<open>0\<close>.\<close>

definition empty_read :: "consumer_config \<Rightarrow> consumer_input \<Rightarrow> int \<Rightarrow> event list" where
  "empty_read cfg inp emptyReadCount =
     Add ''kafka_empty_reads'' (Number 1) #
     (if js_ge (emptyReadCount + 1) (cc_max_empty_reads cfg) then
        [Console Info
           (''VU '' @ js_nat_str (ci_vu inp) @ '' reached max empty reads ('' @
            js_num_str (cc_max_empty_reads cfg) @ ''), stopping'')]
      else [Sleep 1])"

text \<open>The \<open>try\<close> block and its \<open>catch\<close>, entered with a reader; the result is the
  reader the virtual user is left with and the events.\<close>

definition consume_batch ::
  "consumer_config \<Rightarrow> consumer_input \<Rightarrow> reader_cfg \<Rightarrow> reader_cfg option \<times> event list" where
  "consume_batch cfg inp reader =
     (let emptyReadCount = (0 :: int);
          call = Kafka (Consume 10 (cc_consume_timeout_ms cfg))
      in case ci_consume inp of
           Inr messages \<Rightarrow>
             (let consumed_some = (case messages of None \<Rightarrow> False | Some ms \<Rightarrow> 0 < length ms);
                  succeeded = (messages \<noteq> None);
                  checksSuccess = (consumed_some \<and> succeeded)
              in (Some reader,
                  [call,
                   Check ''messages were consumed'' consumed_some,
                   Check ''consume operation succeeded'' succeeded]
                  @ (if \<not> checksSuccess then [Add ''kafka_reader_error_count'' (Number 1)] else [])
                  @ (case messages of
                       None \<Rightarrow> empty_read cfg inp emptyReadCount
                     | Some ms \<Rightarrow>
                         if 0 < length ms then
                           [Add ''kafka_messages_read_count'' (Number (int (length ms))),
                            Add ''kafka_consumed_bytes'' (Number (int (consumed_bytes ms)))]
                         else empty_read cfg inp emptyReadCount)))
         | Inl errorMsg \<Rightarrow>
             if str_includes errorMsg ''context deadline exceeded'' then
               (Some reader,
                [call,
                 Add ''kafka_timeout_errors'' (Number 1),
                 Add ''kafka_empty_reads'' (Number 1)]
                @ (if js_ge (emptyReadCount + 1) (cc_max_empty_reads cfg) then
                     [Console Info
                        (''VU '' @ js_nat_str (ci_vu inp) @
                         '' reached max empty reads due to timeouts, stopping'')]
                   else [Sleep 1]))
             else
               (None,
                [call,
                 Console Failure
                   (''VU '' @ js_nat_str (ci_vu inp) @ '' consume error: '' @ errorMsg),
                 Add ''kafka_reader_error_count'' (Number 1),
                 Kafka CloseReader]
                @ (case ci_close inp of
                     None \<Rightarrow> []
                   | Some closeError \<Rightarrow>
                       [Console Failure (''Error closing reader: '' @ closeError)])
                @ [Sleep 1]))"

text \<open>The default function. The state it keeps between invocations is the module-level
  variable \<open>reader\<close> of the virtual user.\<close>

definition default_consumer ::
  "consumer_config \<Rightarrow> (consumer_input, reader_cfg option) workload" where
  "default_consumer cfg inp reader =
     (case reader of
        None \<Rightarrow>
          (case ci_new_reader inp of
             Some err \<Rightarrow>
               (None,
                [Kafka (NewReader (reader_of cfg)),
                 Console Failure
                   (''VU '' @ js_nat_str (ci_vu inp) @ '' failed to create reader: '' @ err),
                 Add ''kafka_reader_error_count'' (Number 1)],
                Returned)
           | None \<Rightarrow>
               (case consume_batch cfg inp (reader_of cfg) of
                  (reader', evs) \<Rightarrow> (reader', Kafka (NewReader (reader_of cfg)) # evs, Returned)))
      | Some r \<Rightarrow>
          (case consume_batch cfg inp r of
             (reader', evs) \<Rightarrow> (reader', evs, Returned)))"

subsection \<open>The original consumer\<close>

text \<open>
  The first version of the consumer, kept in the same file. Its reader is created once,
  when the script is loaded, with a timeout of \<open>5000\<close> milliseconds; nothing is caught. A
  result that is \<open>null\<close> makes \<open>msgs.length\<close> throw, and so does a message whose key
  or value is \<open>null\<close> when the bytes are summed, after the number of messages has been
  counted (the text of that \<open>TypeError\<close> is the engine's; the model fixes one). The
  inputs are those of the improved consumer.
\<close>

definition all_lengths_known :: "consumed list \<Rightarrow> bool" where
  "all_lengths_known messages =
     list_all (\<lambda>msg. got_key msg \<noteq> None \<and> got_value msg \<noteq> None) messages"

definition default_consumer_v1 :: "consumer_input \<Rightarrow> event list \<times> outcome" where
  "default_consumer_v1 inp =
     (let call = Kafka (Consume 10 (Some 5000)) in
      case ci_consume inp of
        Inl err \<Rightarrow> ([call], Threw err)
      | Inr None \<Rightarrow> ([call], Threw ''TypeError: cannot read property length of null'')
      | Inr (Some messages) \<Rightarrow>
          (let checks =
                 [Check ''messages were consumed'' (0 < length messages),
                  Check ''consumption did not time out'' (0 < length messages)]
           in if 0 < length messages then
                if all_lengths_known messages then
                  (call # checks @
                   [Add ''kafka_messages_read_count'' (Number (int (length messages))),
                    Add ''kafka_consumed_bytes'' (Number (int (consumed_bytes messages)))],
                   Returned)
                else
                  (call # checks @
                   [Add ''kafka_messages_read_count'' (Number (int (length messages)))],
                   Threw ''TypeError: cannot read property length of null'')
              else (call # checks @ [Sleep 1], Returned)))"

section \<open>The CRUD script\<close>

subsection \<open>The database client\<close>

text \<open>
  A row of a result is an object with one property per column. The client is the pair of
  \<open>db.query\<close> (the rows of the result) and \<open>db.exec\<close> (a result whose
  \<open>rowsAffected()\<close> is a number); either may throw, which is \<open>Inl\<close> of the error's text,
  and either may change the database.
\<close>

type_synonym jsrow = "(string \<times> jsval) list"

record 'db backend =
  db_query :: "stmt \<Rightarrow> 'db \<Rightarrow> (string + jsrow list) \<times> 'db"
  db_exec :: "stmt \<Rightarrow> 'db \<Rightarrow> (string + int) \<times> 'db"

text \<open>\<open>row.name\<close>: a property the object does not have is \<open>undefined\<close>.\<close>

definition property :: "jsrow \<Rightarrow> string \<Rightarrow> jsval" where
  "property row name = (case map_of row name of None \<Rightarrow> JUndefined | Some v \<Rightarrow> v)"

fun truthy :: "jsval \<Rightarrow> bool" where
  "truthy JUndefined = False"
| "truthy JNull = False"
| "truthy (JNum n) = (n \<noteq> 0)"
| "truthy (JStr s) = (s \<noteq> [])"

subsection \<open>One invocation, in its four blocks\<close>

text \<open>What one invocation gets from outside: the person and the new last name from the
  faker, and the readings of \<open>Date.now()\<close>, numbered from \<open>0\<close> in the order the
  invocation takes them (two around each statement).\<close>

record crud_input =
  cr_first_name :: string
  cr_last_name :: string
  cr_email :: string
  cr_new_last_name :: string
  cr_clock :: "nat \<Rightarrow> int"

text \<open>INSERT. The block ends the invocation (\<open>Inl\<close>: the statement threw, or no id was
  returned) or hands the id to the next block (\<open>Inr\<close>).\<close>

definition crud_insert ::
  "'db backend \<Rightarrow> crud_input \<Rightarrow> 'db \<Rightarrow> 'db \<times> event list \<times> (outcome + jsval)" where
  "crud_insert b inp db =
     (let t0 = cr_clock inp 0;
          statement = InsertPerson (cr_first_name inp) (cr_last_name inp) (cr_email inp)
      in case db_query b statement db of
           (Inl err, db') \<Rightarrow> (db', [Sql statement], Inl (Threw err))
         | (Inr rows, db') \<Rightarrow>
             (let rid = (case rows of [] \<Rightarrow> JNull | row # _ \<Rightarrow> property row ''id'')
              in if truthy rid then
                   (db',
                    [Sql statement,
                     Add ''db_insert_duration'' (Number (cr_clock inp 1 - t0)),
                     Add ''rows_inserted'' (Number 1),
                     Add ''insert_success'' (Boolean True)],
                    Inr rid)
                 else
                   (db',
                    [Sql statement,
                     Add ''db_insert_duration'' (Number (cr_clock inp 1 - t0)),
                     Add ''insert_success'' (Boolean False),
                     Console Failure ''Failed to insert record''],
                    Inl Returned)))"

text \<open>UPDATE, SELECT and DELETE: \<open>Some\<close> error when the statement threw.\<close>

definition crud_update ::
  "'db backend \<Rightarrow> crud_input \<Rightarrow> jsval \<Rightarrow> 'db \<Rightarrow> 'db \<times> event list \<times> string option" where
  "crud_update b inp rid db =
     (let t0 = cr_clock inp 2;
          statement = UpdateLastName (cr_new_last_name inp) rid
      in case db_exec b statement db of
           (Inl err, db') \<Rightarrow> (db', [Sql statement], Some err)
         | (Inr affected, db') \<Rightarrow>
             (db',
              [Sql statement,
               Add ''db_update_duration'' (Number (cr_clock inp 3 - t0)),
               Add ''rows_updated'' (Number affected),
               Add ''update_success'' (Boolean (affected = 1))],
              None))"

definition crud_select ::
  "'db backend \<Rightarrow> crud_input \<Rightarrow> jsval \<Rightarrow> 'db \<Rightarrow> 'db \<times> event list \<times> string option" where
  "crud_select b inp rid db =
     (let t0 = cr_clock inp 4;
          statement = SelectById rid
      in case db_query b statement db of
           (Inl err, db') \<Rightarrow> (db', [Sql statement], Some err)
         | (Inr rows, db') \<Rightarrow>
             (db',
              [Sql statement,
               Add ''db_select_duration'' (Number (cr_clock inp 5 - t0)),
               Add ''rows_selected'' (Number (int (length rows))),
               Add ''select_success'' (Boolean (length rows = 1))],
              None))"

definition crud_delete ::
  "'db backend \<Rightarrow> crud_input \<Rightarrow> jsval \<Rightarrow> 'db \<Rightarrow> 'db \<times> event list \<times> string option" where
  "crud_delete b inp rid db =
     (let t0 = cr_clock inp 6;
          statement = DeleteById rid
      in case db_exec b statement db of
           (Inl err, db') \<Rightarrow> (db', [Sql statement], Some err)
         | (Inr affected, db') \<Rightarrow>
             (db',
              [Sql statement,
               Add ''db_delete_duration'' (Number (cr_clock inp 7 - t0)),
               Add ''rows_deleted'' (Number affected),
               Add ''delete_success'' (Boolean (affected = 1)),
               Check ''crud_round_ok'' (affected = 1)],
              None))"

text \<open>The default function: the four blocks in a row. It has no \<open>try\<close>: an error of a
  statement leaves the invocation where it is thrown.\<close>

definition default_crud :: "'db backend \<Rightarrow> (crud_input, 'db) workload" where
  "default_crud b inp db =
     (case crud_insert b inp db of
        (db1, e1, Inl out) \<Rightarrow> (db1, e1, out)
      | (db1, e1, Inr rid) \<Rightarrow>
          (case crud_update b inp rid db1 of
             (db2, e2, Some err) \<Rightarrow> (db2, e1 @ e2, Threw err)
           | (db2, e2, None) \<Rightarrow>
               (case crud_select b inp rid db2 of
                  (db3, e3, Some err) \<Rightarrow> (db3, e1 @ e2 @ e3, Threw err)
                | (db3, e3, None) \<Rightarrow>
                    (case crud_delete b inp rid db3 of
                       (db4, e4, Some err) \<Rightarrow> (db4, e1 @ e2 @ e3 @ e4, Threw err)
                     | (db4, e4, None) \<Rightarrow> (db4, e1 @ e2 @ e3 @ e4, Returned)))))"

subsection \<open>The table \<open>tb.perf_test\<close>\<close>

text \<open>
  The table that \<open>setup\<close> creates, and what the four statements do to it. \<open>id\<close> is
  \<open>SERIAL PRIMARY KEY\<close>: a sequence that starts at \<open>1\<close> and is advanced by every
  INSERT, also by one that fails. \<open>email\<close> is \<open>UNIQUE\<close>. \<open>updated_at\<close> is the
  server's clock. Before a statement runs the environment may make it fail (a lost
  connection, a value too long for its column): \<open>fault\<close>.
\<close>

record person =
  p_id :: int
  p_first_name :: string
  p_last_name :: string
  p_email :: string
  p_updated_at :: int

record pgdb =
  pg_rows :: "person list"
  pg_next_id :: int
  pg_now :: int

definition setup_crud :: "int \<Rightarrow> pgdb" where
  "setup_crud now = \<lparr> pg_rows = [], pg_next_id = 1, pg_now = now \<rparr>"

text \<open>\<open>WHERE id = $n\<close>: only an integer parameter equals the id of a row.\<close>

definition id_matches :: "jsval \<Rightarrow> person \<Rightarrow> bool" where
  "id_matches v r = (v = JNum (p_id r))"

definition row_of :: "person \<Rightarrow> jsrow" where
  "row_of r =
     [(''id'', JNum (p_id r)),
      (''first_name'', JStr (p_first_name r)),
      (''last_name'', JStr (p_last_name r)),
      (''email'', JStr (p_email r)),
      (''updated_at'', JNum (p_updated_at r))]"

text \<open>The effect of a statement: the rows it returns, the number of rows it affected and
  the database after it.\<close>

fun pg_run :: "stmt \<Rightarrow> pgdb \<Rightarrow> (string + jsrow list \<times> int) \<times> pgdb" where
  "pg_run (InsertPerson fname lname email) db =
     (let rid = pg_next_id db;
          db1 = db \<lparr> pg_next_id := rid + 1 \<rparr>
      in if email \<in> set (map p_email (pg_rows db)) then
           (Inl ''duplicate key value violates unique constraint'', db1)
         else
           (Inr ([[(''id'', JNum rid)]], 1),
            db1 \<lparr> pg_rows := pg_rows db @
              [\<lparr> p_id = rid, p_first_name = fname, p_last_name = lname, p_email = email,
                 p_updated_at = pg_now db \<rparr>] \<rparr>))"
| "pg_run (UpdateLastName lname v) db =
     (Inr ([], int (length (filter (id_matches v) (pg_rows db)))),
      db \<lparr> pg_rows :=
        map (\<lambda>r. if id_matches v r then r \<lparr> p_last_name := lname, p_updated_at := pg_now db \<rparr> else r)
          (pg_rows db) \<rparr>)"
| "pg_run (SelectById v) db =
     (let found = filter (id_matches v) (pg_rows db)
      in (Inr (map row_of found, int (length found)), db))"
| "pg_run (DeleteById v) db =
     (Inr ([], int (length (filter (id_matches v) (pg_rows db)))),
      db \<lparr> pg_rows := filter (\<lambda>r. \<not> id_matches v r) (pg_rows db) \<rparr>)"

definition pg_backend :: "string option \<Rightarrow> pgdb backend" where
  "pg_backend fault =
     \<lparr> db_query = (\<lambda>statement db.
         case fault of
           Some err \<Rightarrow> (Inl err, db)
         | None \<Rightarrow>
             (case pg_run statement db of
                (Inl err, db') \<Rightarrow> (Inl err, db')
              | (Inr (rows, affected), db') \<Rightarrow> (Inr rows, db'))),
       db_exec = (\<lambda>statement db.
         case fault of
           Some err \<Rightarrow> (Inl err, db)
         | None \<Rightarrow>
             (case pg_run statement db of
                (Inl err, db') \<Rightarrow> (Inl err, db')
              | (Inr (rows, affected), db') \<Rightarrow> (Inr affected, db'))) \<rparr>"

subsection \<open>Virtual users running the script at the same time\<close>

text \<open>The load profile of the script: stages of a duration in seconds and a target number
  of virtual users.\<close>

definition crud_stages :: "(nat \<times> nat) list" where
  "crud_stages = [(5, 10), (20, 50), (5, 0)]"

definition peak_vus :: "(nat \<times> nat) list \<Rightarrow> nat" where
  "peak_vus stages = foldr max (map snd stages) 0"

text \<open>
  Modelled from the spec: the scheduler that runs the virtual users side by side is the
  load-testing tool itself and is not part of the repository. Following sections 4.2 and 5
  of the specification, the virtual users are independent, the steps of one virtual user's
  invocation run strictly one after the other, and the virtual users share nothing but the
  metric sink and the system under test, here the database. A statement is one step of the
  database, so a run is an interleaving of the blocks of the virtual users' invocations.
  A virtual user is at the start of an invocation (\<open>AtInsert\<close>) or inside one, before
  the block named, with the id its INSERT returned.
\<close>

datatype crud_pc = AtInsert | AtUpdate jsval | AtSelect jsval | AtDelete jsval

text \<open>The next block of an invocation: where the virtual user is afterwards (\<open>Inr\<close>), or
  how the invocation ended (\<open>Inl\<close>).\<close>

fun crud_block ::
  "'db backend \<Rightarrow> crud_input \<Rightarrow> crud_pc \<Rightarrow> 'db \<Rightarrow> 'db \<times> event list \<times> (outcome + crud_pc)" where
  "crud_block b inp AtInsert db =
     (case crud_insert b inp db of
        (db', evs, Inl out) \<Rightarrow> (db', evs, Inl out)
      | (db', evs, Inr rid) \<Rightarrow> (db', evs, Inr (AtUpdate rid)))"
| "crud_block b inp (AtUpdate rid) db =
     (case crud_update b inp rid db of
        (db', evs, Some err) \<Rightarrow> (db', evs, Inl (Threw err))
      | (db', evs, None) \<Rightarrow> (db', evs, Inr (AtSelect rid)))"
| "crud_block b inp (AtSelect rid) db =
     (case crud_select b inp rid db of
        (db', evs, Some err) \<Rightarrow> (db', evs, Inl (Threw err))
      | (db', evs, None) \<Rightarrow> (db', evs, Inr (AtDelete rid)))"
| "crud_block b inp (AtDelete rid) db =
     (case crud_delete b inp rid db of
        (db', evs, Some err) \<Rightarrow> (db', evs, Inl (Threw err))
      | (db', evs, None) \<Rightarrow> (db', evs, Inl Returned))"

record crud_run =
  run_db :: pgdb
  run_pc :: "nat \<Rightarrow> crud_pc"
  run_input :: "nat \<Rightarrow> crud_input"
  run_trace :: "event list"

definition crud_start :: "int \<Rightarrow> (nat \<Rightarrow> crud_input) \<Rightarrow> crud_run" where
  "crud_start now inputs =
     \<lparr> run_db = setup_crud now, run_pc = (\<lambda>v. AtInsert), run_input = inputs, run_trace = [] \<rparr>"

text \<open>Modelled from the spec (the scheduler, as above): one step of virtual user \<open>v\<close>, its
  next block, with the fault the environment decides
  for the statement. At the start of an invocation the virtual user takes the fresh input
  \<open>inp\<close>; inside one it goes on with its own. An invocation that ends by an error is
  recorded as a failed iteration, as in the loop of one virtual user.\<close>

definition vu_step :: "nat \<Rightarrow> crud_input \<Rightarrow> string option \<Rightarrow> crud_run \<Rightarrow> crud_run" where
  "vu_step v inp fault s =
     (let input = (if run_pc s v = AtInsert then inp else run_input s v) in
      case crud_block (pg_backend fault) input (run_pc s v) (run_db s) of
        (db', evs, next) \<Rightarrow>
          \<lparr> run_db = db',
            run_pc = (run_pc s)(v := (case next of Inl out \<Rightarrow> AtInsert | Inr pc \<Rightarrow> pc)),
            run_input = (run_input s)(v := input),
            run_trace = run_trace s @ evs @
              (case next of Inl (Threw err) \<Rightarrow> [IterationFailed err] | _ \<Rightarrow> []) \<rparr>)"

text \<open>Modelled from the spec: the runs of the script over its stages. From the state after
  \<open>setup\<close>, any virtual user up to the peak of the stages takes a step, or the server's
  clock moves. Nothing else changes the table.\<close>

inductive crud_reachable :: "crud_run \<Rightarrow> bool" where
  start: "crud_reachable (crud_start now inputs)"
| step: "crud_reachable s \<Longrightarrow> 1 \<le> v \<Longrightarrow> v \<le> peak_vus crud_stages \<Longrightarrow>
         crud_reachable (vu_step v inp fault s)"
| tick: "crud_reachable s \<Longrightarrow> pg_now (run_db s) \<le> now \<Longrightarrow>
         crud_reachable (s \<lparr> run_db := (run_db s) \<lparr> pg_now := now \<rparr> \<rparr>)"

text \<open>Executable for a scripted run: a list of steps applied in order.\<close>

fun crud_steps :: "(nat \<times> crud_input \<times> string option) list \<Rightarrow> crud_run \<Rightarrow> crud_run" where
  "crud_steps [] s = s"
| "crud_steps ((v, inp, fault) # rest) s = crud_steps rest (vu_step v inp fault s)"

text \<open>The count of failed iterations in a trace.\<close>

definition failed_iterations :: "event list \<Rightarrow> nat" where
  "failed_iterations evs = length (filter (\<lambda>e. case e of IterationFailed _ \<Rightarrow> True | _ \<Rightarrow> False) evs)"

text \<open>Inputs of invocations with nothing special about them, for examples.\<close>

definition example_input_v1 :: "nat \<Rightarrow> nat \<Rightarrow> producer_input" where
  "example_input_v1 vu iter =
     \<lparr> pi_vu = vu, pi_iter = iter,
       pi_timestamp = (\<lambda>i. ''2025-01-01T00:00:00.000Z''),
       pi_data = (\<lambda>i. ''abc''),
       pi_produce = None \<rparr>"

definition example_input_v2 :: "nat \<Rightarrow> nat \<Rightarrow> producer2_input" where
  "example_input_v2 vu iter =
     \<lparr> p2_vu = vu, p2_iter = iter,
       p2_timestamp = (\<lambda>i. ''2025-01-01T00:00:00.000Z''),
       p2_name = (\<lambda>i. ''Ada''),
       p2_email = (\<lambda>i. ''ada@example.org''),
       p2_address = (\<lambda>i. ''1 Main Street''),
       p2_produce = None \<rparr>"

section \<open>Names used by the statements below\<close>

text \<open>The calls to the Kafka extension in a trace, oldest first.\<close>

fun kafka_calls :: "event list \<Rightarrow> kafka_call list" where
  "kafka_calls [] = []"
| "kafka_calls (Kafka c # evs) = c # kafka_calls evs"
| "kafka_calls (_ # evs) = kafka_calls evs"

text \<open>The environment variables the improved scripts read.\<close>

definition config_variables :: "string list" where
  "config_variables =
     [''KAFKA_BROKERS'', ''KAFKA_TOPIC'', ''KAFKA_GROUP_ID'', ''CONSUME_TIMEOUT_MS'',
      ''MAX_EMPTY_READS'', ''DELETE_TOPIC_ON_TEARDOWN'']"

text \<open>An environment that sets the names of the specification, and one that sets the
  names the scripts read.\<close>

definition spec_named_env :: env where
  "spec_named_env =
     [''BROKER_ADDRS'' \<mapsto> ''kafka-1:9092,kafka-2:9092'', ''TOPIC'' \<mapsto> ''orders'',
      ''GROUP_ID'' \<mapsto> ''group-a'']"

definition code_named_env :: env where
  "code_named_env =
     [''KAFKA_BROKERS'' \<mapsto> ''kafka-1:9092,kafka-2:9092'', ''KAFKA_TOPIC'' \<mapsto> ''orders'',
      ''KAFKA_GROUP_ID'' \<mapsto> ''group-a'', ''CONSUME_TIMEOUT_MS'' \<mapsto> ''750'',
      ''MAX_EMPTY_READS'' \<mapsto> ''3'', ''DELETE_TOPIC_ON_TEARDOWN'' \<mapsto> ''true'']"

text \<open>Inputs of the consumer: an empty batch, a timeout of \<open>consume\<close>, another error
  of \<open>consume\<close>; the configuration with \<open>MAX_EMPTY_READS=5\<close> and everything else at
  its default; five reads that are empty or time out, and a sixth.\<close>

definition empty_batch_input :: consumer_input where
  "empty_batch_input =
     \<lparr> ci_vu = 1, ci_new_reader = None, ci_consume = Inr (Some []), ci_close = None \<rparr>"

definition timeout_input :: consumer_input where
  "timeout_input =
     \<lparr> ci_vu = 1, ci_new_reader = None,
       ci_consume = Inl ''Unable to read messages: context deadline exceeded'',
       ci_close = None \<rparr>"

definition broken_input :: consumer_input where
  "broken_input =
     \<lparr> ci_vu = 1, ci_new_reader = None,
       ci_consume = Inl ''Unable to read messages: connection refused'',
       ci_close = None \<rparr>"

definition max5_config :: consumer_config where
  "max5_config = consumer_config_of [''MAX_EMPTY_READS'' \<mapsto> ''5'']"

definition five_then_one :: "consumer_input list" where
  "five_then_one =
     [empty_batch_input, timeout_input, empty_batch_input, timeout_input, empty_batch_input,
      empty_batch_input]"

section \<open>Names used by the statements about the CRUD script\<close>

text \<open>A client whose INSERT returns no row, and an input of an invocation.\<close>

definition no_rows_backend :: "unit backend" where
  "no_rows_backend =
     \<lparr> db_query = (\<lambda>statement db. (Inr [], db)),
       db_exec = (\<lambda>statement db. (Inr 0, db)) \<rparr>"

definition example_person :: "string \<Rightarrow> crud_input" where
  "example_person email =
     \<lparr> cr_first_name = ''Ada'', cr_last_name = ''Lovelace'', cr_email = email,
       cr_new_last_name = ''King'', cr_clock = (\<lambda>k. 1000 + 7 * int k) \<rparr>"

text \<open>The series the scripts create with \<open>new Counter\<close>. An invocation lets the
  counters grow when every value it adds to one of them is not negative.\<close>

definition counter_series :: "string list" where
  "counter_series =
     [''rows_inserted'', ''rows_updated'', ''rows_selected'', ''rows_deleted'',
      ''kafka_messages_read_count'', ''kafka_consumed_bytes'', ''kafka_empty_reads'',
      ''kafka_reader_error_count'', ''kafka_timeout_errors'',
      ''kafka_produced_bytes'', ''kafka_produced_messages'']"

definition counters_grow :: "event list \<Rightarrow> bool" where
  "counters_grow evs =
     list_all (\<lambda>(name, v). name \<in> set counter_series \<longrightarrow> 0 \<le> sample_number v) (adds_of evs)"

text \<open>A client whose \<open>rowsAffected()\<close> is a count: never negative.\<close>

definition counts_rows :: "'db backend \<Rightarrow> bool" where
  "counts_rows b = (\<forall>statement db affected db'. db_exec b statement db = (Inr affected, db') \<longrightarrow> 0 \<le> affected)"

text \<open>The ids in the table; a table as the statements keep it: the sequence is ahead of
  every id, and no id is there twice. The id a virtual user holds inside an invocation, and
  the virtual users that are inside one.\<close>

definition row_ids :: "pgdb \<Rightarrow> int set" where
  "row_ids db = p_id ` set (pg_rows db)"

definition db_ok :: "pgdb \<Rightarrow> bool" where
  "db_ok db \<longleftrightarrow>
     1 \<le> pg_next_id db \<and> (\<forall>n \<in> row_ids db. n < pg_next_id db) \<and> distinct (map p_id (pg_rows db))"

fun pc_id :: "crud_pc \<Rightarrow> jsval" where
  "pc_id AtInsert = JNull"
| "pc_id (AtUpdate rid) = rid"
| "pc_id (AtSelect rid) = rid"
| "pc_id (AtDelete rid) = rid"

definition in_flight :: "crud_run \<Rightarrow> nat set" where
  "in_flight s = {v. run_pc s v \<noteq> AtInsert}"

text \<open>What holds in every state of a run: every virtual user inside an invocation holds
  the id of a row that is in the table, no two of them hold the same id, every sample of
  the two counters is \<open>1\<close>, and, as long as no iteration has failed, the inserts are the
  deletes and the invocations under way.\<close>

definition only_ones :: "sample list \<Rightarrow> bool" where
  "only_ones xs = list_all (\<lambda>x. x = Number 1) xs"

definition run_inv :: "crud_run \<Rightarrow> bool" where
  "run_inv s \<longleftrightarrow>
     db_ok (run_db s) \<and>
     finite (in_flight s) \<and>
     (\<forall>v \<in> in_flight s. \<exists>n. pc_id (run_pc s v) = JNum n \<and> n \<in> row_ids (run_db s)) \<and>
     (\<forall>v \<in> in_flight s. \<forall>w \<in> in_flight s. v \<noteq> w \<longrightarrow> pc_id (run_pc s v) \<noteq> pc_id (run_pc s w)) \<and>
     only_ones (samples_of ''rows_inserted'' (run_trace s)) \<and>
     only_ones (samples_of ''rows_deleted'' (run_trace s)) \<and>
     (failed_iterations (run_trace s) = 0 \<longrightarrow>
        length (samples_of ''rows_inserted'' (run_trace s)) =
        length (samples_of ''rows_deleted'' (run_trace s)) + card (in_flight s))"



text \<open>One virtual user whose UPDATE fails: the connection is lost.\<close>

definition update_fails_script :: "(nat \<times> crud_input \<times> string option) list" where
  "update_fails_script =
     [(1, example_person ''ada@example.org'', None),
      (1, example_person ''ada@example.org'', Some ''connection reset'')]"

text \<open>The CRUD script as the workload of one virtual user's loop: an invocation gets its
  input and the fault the environment decides for its statements. What the loop records
  for the way an invocation ended.\<close>

definition crud_workload :: "(crud_input \<times> string option, pgdb) workload" where
  "crud_workload = (\<lambda>(inp, fault) db. default_crud (pg_backend fault) inp db)"

definition failure_events :: "outcome \<Rightarrow> event list" where
  "failure_events out = (case out of Returned \<Rightarrow> [] | Threw err \<Rightarrow> [IterationFailed err])"

text \<open>A budget of two iterations of the CRUD script: the connection is lost in the first.\<close>

definition lost_connection_budget :: "(crud_input \<times> string option) list" where
  "lost_connection_budget =
     [(example_person ''ada@example.org'', Some ''connection reset''),
      (example_person ''ada@example.org'', None)]"

section \<open>Checks of the JavaScript functions\<close>

lemma digit_char_inj: "a < 10 \<Longrightarrow> b < 10 \<Longrightarrow> digit_char a = digit_char b \<Longrightarrow> a = b"
proof -
  assume a: "a < 10" and b: "b < 10" and e: "digit_char a = digit_char b"
  have d: "distinct ''0123456789''" by simp
  have "a < length ''0123456789''" "b < length ''0123456789''" using a b by simp_all
  with d e show "a = b" unfolding digit_char_def
    using nth_eq_iff_index_eq by blast
qed

lemma digit_char_in: "d < 10 \<Longrightarrow> digit_char d \<in> set ''0123456789''"
  unfolding digit_char_def by (rule nth_mem) simp

lemma js_nat_str_not_empty: "js_nat_str n \<noteq> []"
  by (subst js_nat_str.simps) simp

lemma js_nat_str_small: "n < 10 \<Longrightarrow> js_nat_str n = [digit_char n]"
  by (subst js_nat_str.simps) simp

lemma js_nat_str_large:
  "10 \<le> n \<Longrightarrow> js_nat_str n = js_nat_str (n div 10) @ [digit_char (n mod 10)]"
  by (subst js_nat_str.simps) simp

lemma js_nat_str_digits: "set (js_nat_str n) \<subseteq> set ''0123456789''"
proof (induction n rule: js_nat_str.induct)
  case (1 n)
  show ?case
  proof (cases "n < 10")
    case True
    then show ?thesis using digit_char_in [of n] by (simp add: js_nat_str_small)
  next
    case False
    have "digit_char (n mod 10) \<in> set ''0123456789''" by (rule digit_char_in) simp
    with False "1.IH" show ?thesis by (simp add: js_nat_str_large)
  qed
qed

lemma js_nat_str_inj: "js_nat_str n = js_nat_str m \<Longrightarrow> n = m"
proof (induction n arbitrary: m rule: js_nat_str.induct)
  case (1 n)
  show ?case
  proof (cases "n < 10")
    case small_n: True
    show ?thesis
    proof (cases "m < 10")
      case True
      with small_n "1.prems" show ?thesis
        by (simp add: js_nat_str_small digit_char_inj)
    next
      case False
      with small_n "1.prems" show ?thesis
        by (simp add: js_nat_str_small js_nat_str_large js_nat_str_not_empty
            js_nat_str_not_empty [THEN not_sym])
    qed
  next
    case large_n: False
    show ?thesis
    proof (cases "m < 10")
      case True
      with large_n "1.prems" show ?thesis
        by (simp add: js_nat_str_small js_nat_str_large js_nat_str_not_empty
            js_nat_str_not_empty [THEN not_sym])
    next
      case False
      with large_n "1.prems" have
        q: "js_nat_str (n div 10) = js_nat_str (m div 10)" and
        r: "digit_char (n mod 10) = digit_char (m mod 10)"
        by (simp_all add: js_nat_str_large)
      from "1.IH" large_n q have "n div 10 = m div 10" by simp
      moreover from r have "n mod 10 = m mod 10" by (simp add: digit_char_inj)
      ultimately show ?thesis by (metis div_mult_mod_eq)
    qed
  qed
qed

section \<open>Runs of the producers\<close>

lemma produced_messages_append:
  "produced_messages (xs @ ys) = produced_messages xs @ produced_messages ys"
  by (induction xs rule: produced_messages.induct) simp_all

lemma separator_split:
  "c \<notin> set a \<Longrightarrow> c \<notin> set a' \<Longrightarrow> a @ c # b = a' @ c # b' \<Longrightarrow> a = a' \<and> b = b'"
proof (induction a arbitrary: a')
  case Nil
  then show ?case by (cases a') auto
next
  case (Cons x a)
  then show ?case by (cases a') auto
qed

lemma dash_not_in_number: "CHR ''-'' \<notin> set (js_nat_str n)"
  using js_nat_str_digits [of n] by auto

lemma message_key_v2_inj:
  assumes "message_key_v2 v t i = message_key_v2 v' t' i'"
  shows "v = v' \<and> t = t' \<and> i = i'"
proof -
  from assms have e:
    "js_nat_str v @ CHR ''-'' # (js_nat_str t @ CHR ''-'' # js_nat_str i) =
     js_nat_str v' @ CHR ''-'' # (js_nat_str t' @ CHR ''-'' # js_nat_str i')"
    by (simp add: message_key_v2_def)
  from separator_split [OF dash_not_in_number dash_not_in_number e]
  have v: "js_nat_str v = js_nat_str v'"
    and r: "js_nat_str t @ CHR ''-'' # js_nat_str i = js_nat_str t' @ CHR ''-'' # js_nat_str i'"
    by simp_all
  from separator_split [OF dash_not_in_number dash_not_in_number r]
  have "js_nat_str t = js_nat_str t'" and "js_nat_str i = js_nat_str i'" by simp_all
  with v show ?thesis by (simp add: js_nat_str_inj)
qed

lemma message_key_v1_inj:
  "message_key_v1 v t i = message_key_v1 v' t' i' \<Longrightarrow> v = v' \<and> t = t' \<and> i = i'"
  by (rule message_key_v2_inj) (simp add: message_key_v1_def message_key_v2_def)

lemma vu_loop_stateless:
  "snd (vu_loop (stateless f) inputs u) =
   concat (map (\<lambda>i. fst (f i) @ (case snd (f i) of Returned \<Rightarrow> [] | Threw e \<Rightarrow> [IterationFailed e])) inputs)"
  by (induction inputs) (auto simp: stateless_def split: prod.splits)

lemma produced_messages_concat:
  "produced_messages (concat xss) = concat (map produced_messages xss)"
  by (induction xss) (simp_all add: produced_messages_append)

lemma produced_v1: "produced_messages (fst (default_producer_v1 inp)) = build_messages_v1 inp"
  by (simp add: default_producer_v1_def Let_def split: option.splits)

lemma produced_v2: "produced_messages (fst (default_producer_v2 inp)) = build_messages_v2 inp"
  by (simp add: default_producer_v2_def Let_def split: option.splits)

lemma returned_v1: "snd (default_producer_v1 inp) = Returned"
  by (simp add: default_producer_v1_def Let_def)

lemma returned_v2: "snd (default_producer_v2 inp) = Returned"
  by (simp add: default_producer_v2_def Let_def)

lemma run_messages_v1:
  "produced_messages (snd (vu_loop (stateless default_producer_v1) inputs u)) =
   concat (map build_messages_v1 inputs)"
  by (simp add: vu_loop_stateless returned_v1 produced_messages_concat
        produced_messages_append o_def produced_v1)

lemma run_messages_v2:
  "produced_messages (snd (vu_loop (stateless default_producer_v2) inputs u)) =
   concat (map build_messages_v2 inputs)"
  by (simp add: vu_loop_stateless returned_v2 produced_messages_concat
        produced_messages_append o_def produced_v2)

lemma keys_v1:
  "map msg_key (build_messages_v1 inp) =
   map (message_key_v1 (pi_vu inp) (pi_iter inp)) [0 ..< MESSAGES_PER_ITERATION]"
  by (simp add: build_messages_v1_def message_v1_def)

lemma keys_v2:
  "map msg_key (build_messages_v2 inp) =
   map (message_key_v2 (p2_vu inp) (p2_iter inp)) [0 ..< MESSAGES_PER_ITERATION]"
  by (simp add: build_messages_v2_def message_v2_def serialize_string_def)

lemma distinct_keys_run:
  fixes key :: "nat \<Rightarrow> nat \<Rightarrow> nat \<Rightarrow> string" and ident :: "'a \<Rightarrow> nat \<times> nat"
  assumes inj: "\<And>v t i v' t' i'. key v t i = key v' t' i' \<Longrightarrow> v = v' \<and> t = t' \<and> i = i'"
    and d: "distinct (map ident inputs)"
  shows "distinct (concat (map (\<lambda>inp. map (key (fst (ident inp)) (snd (ident inp))) [0 ..< n]) inputs))"
  using d
proof (induction inputs)
  case Nil
  then show ?case by simp
next
  case (Cons inp inputs)
  let ?keys = "\<lambda>inp. map (key (fst (ident inp)) (snd (ident inp))) [0 ..< n]"
  have one: "distinct (?keys inp)"
    by (auto simp: distinct_map inj_on_def dest: inj)
  have apart: "set (?keys inp) \<inter> set (concat (map ?keys inputs)) = {}"
  proof (rule ccontr)
    assume "\<not> ?thesis"
    then obtain k where k1: "k \<in> set (?keys inp)"
      and k2: "k \<in> set (concat (map ?keys inputs))" by blast
    from k2 obtain other where o: "other \<in> set inputs" and k3: "k \<in> set (?keys other)"
      by auto
    from k1 obtain i where a: "k = key (fst (ident inp)) (snd (ident inp)) i" by auto
    from k3 obtain j where b: "k = key (fst (ident other)) (snd (ident other)) j" by auto
    from a b inj [of "fst (ident inp)" "snd (ident inp)" i "fst (ident other)" "snd (ident other)" j]
    have "ident inp = ident other" by (simp add: prod_eq_iff)
    with o Cons.prems show False by force
  qed
  from Cons one apart show ?case by simp
qed

lemma distinct_keys_v1:
  assumes "distinct (map (\<lambda>inp. (pi_vu inp, pi_iter inp)) inputs)"
  shows "distinct (map msg_key (concat (map build_messages_v1 inputs)))"
  using distinct_keys_run [of message_key_v1 "\<lambda>inp. (pi_vu inp, pi_iter inp)" inputs
      MESSAGES_PER_ITERATION, OF message_key_v1_inj assms]
  by (simp add: map_concat o_def keys_v1)

lemma distinct_keys_v2:
  assumes "distinct (map (\<lambda>inp. (p2_vu inp, p2_iter inp)) inputs)"
  shows "distinct (map msg_key (concat (map build_messages_v2 inputs)))"
  using distinct_keys_run [of message_key_v2 "\<lambda>inp. (p2_vu inp, p2_iter inp)" inputs
      MESSAGES_PER_ITERATION, OF message_key_v2_inj assms]
  by (simp add: map_concat o_def keys_v2)

text \<open>
  Claim C10. In both producer scripts the key of a message is built from the virtual
  user's id, its iteration number and the message's index in the batch. The scheduler gives
  every invocation of a run its own pair of id and iteration number; then no two messages
  handed to \<open>writer.produce\<close> during the run have the same key, in the original producer
  (keys \<open>key-VU-ITER-i\<close>) and in the improved one (the serialized \<open>VU-ITER-i\<close>).
\<close>

theorem message_keys_unique:
  "(distinct (map (\<lambda>inp. (pi_vu inp, pi_iter inp)) inputs1) \<longrightarrow>
      distinct (map msg_key
        (produced_messages (snd (vu_loop (stateless default_producer_v1) inputs1 ()))))) \<and>
   (distinct (map (\<lambda>inp. (p2_vu inp, p2_iter inp)) inputs2) \<longrightarrow>
      distinct (map msg_key
        (produced_messages (snd (vu_loop (stateless default_producer_v2) inputs2 ())))))"
  by (simp add: run_messages_v1 run_messages_v2 distinct_keys_v1 distinct_keys_v2)


theorem message_keys_unique_witness:
  "distinct (map (\<lambda>inp. (pi_vu inp, pi_iter inp))
      [example_input_v1 1 0, example_input_v1 2 0, example_input_v1 1 1]) \<and>
   distinct (map msg_key (produced_messages (snd (vu_loop (stateless default_producer_v1)
      [example_input_v1 1 0, example_input_v1 2 0, example_input_v1 1 1] ())))) \<and>
   distinct (map (\<lambda>inp. (p2_vu inp, p2_iter inp))
      [example_input_v2 1 11, example_input_v2 11 1]) \<and>
   distinct (map msg_key (produced_messages (snd (vu_loop (stateless default_producer_v2)
      [example_input_v2 1 11, example_input_v2 11 1] ()))))"
proof -
  have h1: "distinct (map (\<lambda>inp. (pi_vu inp, pi_iter inp))
      [example_input_v1 1 0, example_input_v1 2 0, example_input_v1 1 1])"
    by (simp add: example_input_v1_def)
  have h2: "distinct (map (\<lambda>inp. (p2_vu inp, p2_iter inp))
      [example_input_v2 1 11, example_input_v2 11 1])"
    by (simp add: example_input_v2_def)
  from h1 h2 message_keys_unique
    [of "[example_input_v1 1 0, example_input_v1 2 0, example_input_v1 1 1]"
        "[example_input_v2 1 11, example_input_v2 11 1]"]
  show ?thesis by blast
qed

section \<open>The metric sink\<close>

lemma samples_of_append:
  "samples_of name (xs @ ys) = samples_of name xs @ samples_of name ys"
  by (induction name xs rule: samples_of.induct) simp_all

lemma counter_total_append:
  "counter_total name (xs @ ys) = counter_total name xs + counter_total name ys"
  by (simp add: counter_total_def samples_of_append)

lemma counter_total_Nil: "counter_total name [] = 0"
  by (simp add: counter_total_def)

lemma length_build_messages_v2: "length (build_messages_v2 inp) = 10"
  by (simp add: build_messages_v2_def MESSAGES_PER_ITERATION_def)

lemma produced_count_one:
  "p2_produce inp = None \<Longrightarrow>
   counter_total ''kafka_produced_messages'' (fst (default_producer_v2 inp)) = 10"
  by (simp add: default_producer_v2_def Let_def counter_total_def length_build_messages_v2)

lemma produced_count_run:
  "\<forall>inp \<in> set inputs. p2_produce inp = None \<Longrightarrow>
   counter_total ''kafka_produced_messages''
     (snd (vu_loop (stateless default_producer_v2) inputs ())) = 10 * int (length inputs)"
  unfolding vu_loop_stateless
  by (induction inputs)
     (simp_all add: returned_v2 counter_total_append produced_count_one counter_total_Nil)

text \<open>
  Claim C6. In a run of the improved producer in which ten invocations complete and
  \<open>writer.produce\<close> never throws, the counter \<open>kafka_produced_messages\<close> is \<open>100\<close>
  at the end: every such invocation adds one sample, the length of its batch,
  \<open>MESSAGES_PER_ITERATION = 10\<close>.
\<close>

theorem ten_iterations_produce_100:
  assumes "length inputs = 10" and "\<forall>inp \<in> set inputs. p2_produce inp = None"
  shows "counter_total ''kafka_produced_messages''
           (snd (vu_loop (stateless default_producer_v2) inputs ())) = 100
         \<and> (\<forall>inp \<in> set inputs.
              samples_of ''kafka_produced_messages'' (fst (default_producer_v2 inp)) =
              [Number (int MESSAGES_PER_ITERATION)])"
proof
  show "counter_total ''kafka_produced_messages''
           (snd (vu_loop (stateless default_producer_v2) inputs ())) = 100"
    using produced_count_run [OF assms(2)] assms(1) by simp
  show "\<forall>inp \<in> set inputs.
          samples_of ''kafka_produced_messages'' (fst (default_producer_v2 inp)) =
          [Number (int MESSAGES_PER_ITERATION)]"
    using assms(2)
    by (simp add: default_producer_v2_def Let_def length_build_messages_v2
        MESSAGES_PER_ITERATION_def)
qed


theorem ten_iterations_produce_100_witness:
  "counter_total ''kafka_produced_messages''
     (snd (vu_loop (stateless default_producer_v2) (map (example_input_v2 3) [0 ..< 10]) ())) = 100"
proof -
  have len: "length (map (example_input_v2 3) [0 ..< 10]) = 10" by simp
  have ok: "\<forall>inp \<in> set (map (example_input_v2 3) [0 ..< 10]). p2_produce inp = None"
    by (simp add: example_input_v2_def)
  from ten_iterations_produce_100 [OF len ok] show ?thesis by blast
qed

section \<open>Teardown of the improved producer\<close>

lemma teardown_calls:
  "kafka_calls (teardown_producer_v2 cfg inp) =
     (case td_writer_close inp of
        Some err \<Rightarrow> [CloseWriter]
      | None \<Rightarrow>
          if pc_delete_topic_on_teardown cfg then
            (case td_delete_topic inp of
               Some err \<Rightarrow> [CloseWriter, DeleteTopic (pc_topic cfg)]
             | None \<Rightarrow> [CloseWriter, DeleteTopic (pc_topic cfg), CloseConnection])
          else [CloseWriter, CloseConnection])"
  by (simp add: teardown_producer_v2_def Let_def split: option.splits)

text \<open>
  Claim C9, as stated, fails: with \<open>DELETE_TOPIC_ON_TEARDOWN\<close> set to \<open>'true'\<close>, a
  \<open>writer.close()\<close> that throws ends the teardown in its \<open>catch\<close>, and neither
  \<open>deleteTopic\<close> nor \<open>connection.close\<close> is called.
\<close>

theorem teardown_deletes_topic_counterexample:
  "[''DELETE_TOPIC_ON_TEARDOWN'' \<mapsto> ''true''] ''DELETE_TOPIC_ON_TEARDOWN'' = Some ''true'' \<and>
   kafka_calls (teardown_producer_v2
     (producer_config_of [''DELETE_TOPIC_ON_TEARDOWN'' \<mapsto> ''true''])
     \<lparr> td_writer_close = Some ''writer is closed'', td_delete_topic = None,
       td_connection_close = None \<rparr>) = [CloseWriter]"
  by (simp add: teardown_calls)

text \<open>
  Claim C9, amended. The teardown of the improved producer calls \<open>deleteTopic\<close> (on the
  configured topic) if and only if \<open>DELETE_TOPIC_ON_TEARDOWN\<close> is exactly the string
  \<open>'true'\<close> and \<open>writer.close()\<close> did not throw. For every other value of the variable
  (unset, \<open>'True'\<close>, \<open>'1'\<close>, anything else) the topic is never deleted, and the only calls
  are the closing of the writer and, when that did not throw, of the connection.
\<close>

theorem teardown_deletes_topic:
  "(DeleteTopic t \<in> set (kafka_calls (teardown_producer_v2 (producer_config_of e) inp)) \<longleftrightarrow>
      e ''DELETE_TOPIC_ON_TEARDOWN'' = Some ''true'' \<and> td_writer_close inp = None \<and>
      t = pc_topic (producer_config_of e)) \<and>
   (e ''DELETE_TOPIC_ON_TEARDOWN'' \<noteq> Some ''true'' \<longrightarrow>
      kafka_calls (teardown_producer_v2 (producer_config_of e) inp) =
        (if td_writer_close inp = None then [CloseWriter, CloseConnection] else [CloseWriter]))"
  by (auto simp: teardown_calls producer_config_of_def split: option.splits)

theorem teardown_deletes_topic_witness:
  "[''DELETE_TOPIC_ON_TEARDOWN'' \<mapsto> ''True''] ''DELETE_TOPIC_ON_TEARDOWN'' \<noteq> Some ''true'' \<and>
   kafka_calls (teardown_producer_v2
     (producer_config_of [''DELETE_TOPIC_ON_TEARDOWN'' \<mapsto> ''True''])
     \<lparr> td_writer_close = None, td_delete_topic = None, td_connection_close = None \<rparr>) =
     [CloseWriter, CloseConnection]"
proof -
  have h: "[''DELETE_TOPIC_ON_TEARDOWN'' \<mapsto> ''True''] ''DELETE_TOPIC_ON_TEARDOWN'' \<noteq> Some ''true''"
    by simp
  from h teardown_deletes_topic
    [where e = "[''DELETE_TOPIC_ON_TEARDOWN'' \<mapsto> ''True'']" and
        inp = "\<lparr> td_writer_close = None, td_delete_topic = None, td_connection_close = None \<rparr>"]
  show ?thesis by simp
qed

section \<open>Configuration from the environment\<close>

lemma parseInt_2000: "parseInt ''2000'' = Some 2000"
  by (simp add: parseInt_def is_js_space_def is_digit_in_def digit_of_def digits_number_def)

lemma parseInt_5: "parseInt ''5'' = Some 5"
  by (simp add: parseInt_def is_js_space_def is_digit_in_def digit_of_def digits_number_def)

lemma parseInt_examples:
  "parseInt ''750'' = Some 750" "parseInt ''  -12px'' = Some (- 12)" "parseInt ''0x1F'' = Some 31"
  "parseInt ''abc'' = None" "parseInt '''' = None" "parseInt ''3'' = Some 3"
  by (simp_all add: parseInt_def is_js_space_def is_digit_in_def digit_of_def digits_number_def)

lemma split_examples:
  "split_on CHR '','' ''kafka-1:9092,kafka-2:9092'' = [''kafka-1:9092'', ''kafka-2:9092'']"
  "split_on CHR '','' ''localhost:9092'' = [''localhost:9092'']"
  "split_on CHR '','' ''a,,b,'' = [''a'', '''', ''b'', '''']"
  by simp_all

lemma env_or_set: "e name = Some s \<Longrightarrow> s \<noteq> [] \<Longrightarrow> env_or e name d = s"
  by (simp add: env_or_def)

lemma env_or_unset: "e name = None \<Longrightarrow> env_or e name d = d"
  by (simp add: env_or_def)

lemma env_or_cong: "e name = e' name \<Longrightarrow> env_or e name d = env_or e' name d"
  by (simp add: env_or_def)

text \<open>
  Claim C3, as stated, fails: the scripts do not read \<open>BROKER_ADDRS\<close>, \<open>TOPIC\<close> or
  \<open>GROUP_ID\<close>. An environment that sets these three leaves the brokers, the topic and the
  group id at their defaults.
\<close>

theorem configuration_from_other_names_counterexample:
  "spec_named_env ''BROKER_ADDRS'' = Some ''kafka-1:9092,kafka-2:9092'' \<and>
   spec_named_env ''TOPIC'' = Some ''orders'' \<and>
   spec_named_env ''GROUP_ID'' = Some ''group-a'' \<and>
   cc_brokers (consumer_config_of spec_named_env) = [''localhost:9092''] \<and>
   cc_topic (consumer_config_of spec_named_env) = ''my-test-topic'' \<and>
   cc_group_id (consumer_config_of spec_named_env) = ''k6-consumer-group'' \<and>
   pc_brokers (producer_config_of spec_named_env) = [''localhost:9094''] \<and>
   pc_topic (producer_config_of spec_named_env) = ''my-test-topic''"
  by (simp add: spec_named_env_def consumer_config_of_def producer_config_of_def env_or_def)

text \<open>
  Claim C3, amended. The configuration of the improved consumer and producer is read from
  exactly the environment variables \<open>KAFKA_BROKERS\<close>, \<open>KAFKA_TOPIC\<close>,
  \<open>KAFKA_GROUP_ID\<close>, \<open>CONSUME_TIMEOUT_MS\<close>, \<open>MAX_EMPTY_READS\<close> and
  \<open>DELETE_TOPIC_ON_TEARDOWN\<close>: two environments that agree on these six give the same
  configuration. Each of the first five, when set to a non-empty string, determines its
  value (the list split at commas, the string itself, or \<open>parseInt\<close> of it), and when unset
  its default is used (\<open>localhost:9092\<close> for the consumer and \<open>localhost:9094\<close> for the
  producer, \<open>my-test-topic\<close>, \<open>k6-consumer-group\<close>, \<open>2000\<close>, \<open>5\<close>); the
  delete flag is true exactly when its variable is the string \<open>'true'\<close>.
\<close>

theorem configuration_from_environment:
  "((\<forall>name \<in> set config_variables. e name = e' name) \<longrightarrow>
      consumer_config_of e = consumer_config_of e' \<and>
      producer_config_of e = producer_config_of e') \<and>
   (e ''KAFKA_BROKERS'' = Some s \<and> s \<noteq> [] \<longrightarrow>
      cc_brokers (consumer_config_of e) = split_on CHR '','' s \<and>
      pc_brokers (producer_config_of e) = split_on CHR '','' s) \<and>
   (e ''KAFKA_TOPIC'' = Some s \<and> s \<noteq> [] \<longrightarrow>
      cc_topic (consumer_config_of e) = s \<and> pc_topic (producer_config_of e) = s) \<and>
   (e ''KAFKA_GROUP_ID'' = Some s \<and> s \<noteq> [] \<longrightarrow> cc_group_id (consumer_config_of e) = s) \<and>
   (e ''CONSUME_TIMEOUT_MS'' = Some s \<and> s \<noteq> [] \<longrightarrow>
      cc_consume_timeout_ms (consumer_config_of e) = parseInt s) \<and>
   (e ''MAX_EMPTY_READS'' = Some s \<and> s \<noteq> [] \<longrightarrow>
      cc_max_empty_reads (consumer_config_of e) = parseInt s) \<and>
   (e ''DELETE_TOPIC_ON_TEARDOWN'' = Some s \<longrightarrow>
      pc_delete_topic_on_teardown (producer_config_of e) = (s = ''true'')) \<and>
   (e ''KAFKA_BROKERS'' = None \<longrightarrow>
      cc_brokers (consumer_config_of e) = [''localhost:9092''] \<and>
      pc_brokers (producer_config_of e) = [''localhost:9094'']) \<and>
   (e ''KAFKA_TOPIC'' = None \<longrightarrow>
      cc_topic (consumer_config_of e) = ''my-test-topic'' \<and>
      pc_topic (producer_config_of e) = ''my-test-topic'') \<and>
   (e ''KAFKA_GROUP_ID'' = None \<longrightarrow> cc_group_id (consumer_config_of e) = ''k6-consumer-group'') \<and>
   (e ''CONSUME_TIMEOUT_MS'' = None \<longrightarrow>
      cc_consume_timeout_ms (consumer_config_of e) = Some 2000) \<and>
   (e ''MAX_EMPTY_READS'' = None \<longrightarrow> cc_max_empty_reads (consumer_config_of e) = Some 5) \<and>
   (e ''DELETE_TOPIC_ON_TEARDOWN'' = None \<longrightarrow>
      \<not> pc_delete_topic_on_teardown (producer_config_of e))"
proof -
  have frame: "(\<forall>name \<in> set config_variables. e name = e' name) \<longrightarrow>
      consumer_config_of e = consumer_config_of e' \<and>
      producer_config_of e = producer_config_of e'"
    by (simp add: config_variables_def consumer_config_of_def producer_config_of_def env_or_def)
  have set_values:
    "e ''KAFKA_BROKERS'' = Some s \<and> s \<noteq> [] \<longrightarrow>
      cc_brokers (consumer_config_of e) = split_on CHR '','' s \<and>
      pc_brokers (producer_config_of e) = split_on CHR '','' s"
    "e ''KAFKA_TOPIC'' = Some s \<and> s \<noteq> [] \<longrightarrow>
      cc_topic (consumer_config_of e) = s \<and> pc_topic (producer_config_of e) = s"
    "e ''KAFKA_GROUP_ID'' = Some s \<and> s \<noteq> [] \<longrightarrow> cc_group_id (consumer_config_of e) = s"
    "e ''CONSUME_TIMEOUT_MS'' = Some s \<and> s \<noteq> [] \<longrightarrow>
      cc_consume_timeout_ms (consumer_config_of e) = parseInt s"
    "e ''MAX_EMPTY_READS'' = Some s \<and> s \<noteq> [] \<longrightarrow>
      cc_max_empty_reads (consumer_config_of e) = parseInt s"
    "e ''DELETE_TOPIC_ON_TEARDOWN'' = Some s \<longrightarrow>
      pc_delete_topic_on_teardown (producer_config_of e) = (s = ''true'')"
    by (simp_all add: consumer_config_of_def producer_config_of_def env_or_set)
  have defaults:
    "e ''KAFKA_BROKERS'' = None \<longrightarrow>
      cc_brokers (consumer_config_of e) = [''localhost:9092''] \<and>
      pc_brokers (producer_config_of e) = [''localhost:9094'']"
    "e ''KAFKA_TOPIC'' = None \<longrightarrow>
      cc_topic (consumer_config_of e) = ''my-test-topic'' \<and>
      pc_topic (producer_config_of e) = ''my-test-topic''"
    "e ''KAFKA_GROUP_ID'' = None \<longrightarrow> cc_group_id (consumer_config_of e) = ''k6-consumer-group''"
    "e ''CONSUME_TIMEOUT_MS'' = None \<longrightarrow>
      cc_consume_timeout_ms (consumer_config_of e) = Some 2000"
    "e ''MAX_EMPTY_READS'' = None \<longrightarrow> cc_max_empty_reads (consumer_config_of e) = Some 5"
    "e ''DELETE_TOPIC_ON_TEARDOWN'' = None \<longrightarrow>
      \<not> pc_delete_topic_on_teardown (producer_config_of e)"
    by (simp_all add: consumer_config_of_def producer_config_of_def env_or_unset
        parseInt_2000 parseInt_5)
  from frame set_values defaults show ?thesis by blast
qed

theorem configuration_from_environment_witness:
  "consumer_config_of code_named_env =
     \<lparr> cc_brokers = [''kafka-1:9092'', ''kafka-2:9092''], cc_topic = ''orders'',
       cc_group_id = ''group-a'', cc_consume_timeout_ms = Some 750,
       cc_max_empty_reads = Some 3 \<rparr> \<and>
   pc_delete_topic_on_teardown (producer_config_of code_named_env) \<and>
   consumer_config_of (code_named_env (''VERBOSE'' \<mapsto> ''1'')) = consumer_config_of code_named_env \<and>
   cc_consume_timeout_ms (consumer_config_of Map.empty) = Some 2000"
proof -
  have same: "\<forall>name \<in> set config_variables.
      (code_named_env (''VERBOSE'' \<mapsto> ''1'')) name = code_named_env name"
    by (simp add: config_variables_def)
  have vals:
    "code_named_env ''KAFKA_BROKERS'' = Some ''kafka-1:9092,kafka-2:9092''"
    "code_named_env ''KAFKA_TOPIC'' = Some ''orders''"
    "code_named_env ''KAFKA_GROUP_ID'' = Some ''group-a''"
    "code_named_env ''CONSUME_TIMEOUT_MS'' = Some ''750''"
    "code_named_env ''MAX_EMPTY_READS'' = Some ''3''"
    "code_named_env ''DELETE_TOPIC_ON_TEARDOWN'' = Some ''true''"
    by (simp_all add: code_named_env_def)
  have none: "Map.empty ''CONSUME_TIMEOUT_MS'' = (None :: string option)" by simp
  have a: "consumer_config_of (code_named_env (''VERBOSE'' \<mapsto> ''1'')) = consumer_config_of code_named_env"
    using configuration_from_environment
      [where e = "code_named_env (''VERBOSE'' \<mapsto> ''1'')" and e' = code_named_env] same
    by blast
  have b: "cc_consume_timeout_ms (consumer_config_of Map.empty) = Some 2000"
    using configuration_from_environment [where e = Map.empty] none by blast
  have c: "pc_delete_topic_on_teardown (producer_config_of code_named_env)"
    using configuration_from_environment [where e = code_named_env and s = "''true''"] vals(6)
    by simp
  have d: "consumer_config_of code_named_env =
     \<lparr> cc_brokers = [''kafka-1:9092'', ''kafka-2:9092''], cc_topic = ''orders'',
       cc_group_id = ''group-a'', cc_consume_timeout_ms = Some 750,
       cc_max_empty_reads = Some 3 \<rparr>"
    by (simp add: consumer_config_of_def env_or_def code_named_env_def parseInt_examples)
  from a b c d show ?thesis by blast
qed

section \<open>The consumer's reads\<close>

lemma max5_config_eq:
  "max5_config =
     \<lparr> cc_brokers = [''localhost:9092''], cc_topic = ''my-test-topic'',
       cc_group_id = ''k6-consumer-group'', cc_consume_timeout_ms = Some 2000,
       cc_max_empty_reads = Some 5 \<rparr>"
  by (simp add: max5_config_def consumer_config_of_def env_or_def parseInt_2000 parseInt_5)

lemma timeout_text:
  "str_includes ''Unable to read messages: context deadline exceeded'' ''context deadline exceeded''"
  by simp

lemma broken_text:
  "\<not> str_includes ''Unable to read messages: connection refused'' ''context deadline exceeded''"
  by simp

lemma consume_batch_threw:
  "ci_consume inp = Inl err \<Longrightarrow>
   samples_of ''kafka_timeout_errors'' (snd (consume_batch cfg inp r)) =
     (if str_includes err ''context deadline exceeded'' then [Number 1] else []) \<and>
   samples_of ''kafka_reader_error_count'' (snd (consume_batch cfg inp r)) =
     (if str_includes err ''context deadline exceeded'' then [] else [Number 1])"
  by (simp add: consume_batch_def Let_def samples_of_append split: option.splits)

lemma default_consumer_events:
  "reader \<noteq> None \<or> ci_new_reader inp = None \<Longrightarrow>
   samples_of name (fst (snd (default_consumer cfg inp reader))) =
   samples_of name (snd (consume_batch cfg inp (case reader of None \<Rightarrow> reader_of cfg | Some r \<Rightarrow> r)))"
  by (auto simp: default_consumer_def split: option.splits prod.splits)

text \<open>
  Claim C4. Every error that \<open>reader.consume\<close> throws in the consumer is put in exactly
  one of two classes by its text: a timeout (the text contains \<open>context deadline
  exceeded\<close>) adds one sample to \<open>kafka_timeout_errors\<close> and none to
  \<open>kafka_reader_error_count\<close>, any other error adds one sample to
  \<open>kafka_reader_error_count\<close> and none to \<open>kafka_timeout_errors\<close>. So no failure is
  counted in both, and a timeout never adds to the counter of real errors.
\<close>

theorem consume_error_counted_once:
  assumes "ci_consume inp = Inl err" and "reader \<noteq> None \<or> ci_new_reader inp = None"
  shows "(samples_of ''kafka_timeout_errors'' (fst (snd (default_consumer cfg inp reader))),
          samples_of ''kafka_reader_error_count'' (fst (snd (default_consumer cfg inp reader)))) =
         (if str_includes err ''context deadline exceeded''
          then ([Number 1], []) else ([], [Number 1]))"
  using consume_batch_threw [OF assms(1)] default_consumer_events [OF assms(2)]
  by simp

theorem consume_error_counted_once_witness:
  "(samples_of ''kafka_timeout_errors'' (fst (snd (default_consumer max5_config timeout_input None))),
    samples_of ''kafka_reader_error_count'' (fst (snd (default_consumer max5_config timeout_input None))))
     = ([Number 1], []) \<and>
   (samples_of ''kafka_timeout_errors'' (fst (snd (default_consumer max5_config broken_input None))),
    samples_of ''kafka_reader_error_count'' (fst (snd (default_consumer max5_config broken_input None))))
     = ([], [Number 1])"
proof -
  have t: "ci_consume timeout_input = Inl ''Unable to read messages: context deadline exceeded''"
    and tr: "None \<noteq> (None :: reader_cfg option) \<or> ci_new_reader timeout_input = None"
    by (simp_all add: timeout_input_def)
  have b: "ci_consume broken_input = Inl ''Unable to read messages: connection refused''"
    and br: "None \<noteq> (None :: reader_cfg option) \<or> ci_new_reader broken_input = None"
    by (simp_all add: broken_input_def)
  from consume_error_counted_once [OF t tr, of max5_config] timeout_text
       consume_error_counted_once [OF b br, of max5_config] broken_text
  show ?thesis by simp
qed


lemma empty_batch_step:
  "default_consumer max5_config empty_batch_input (Some r) =
     (Some r,
      [Kafka (Consume 10 (Some 2000)),
       Check ''messages were consumed'' False,
       Check ''consume operation succeeded'' True,
       Add ''kafka_reader_error_count'' (Number 1),
       Add ''kafka_empty_reads'' (Number 1),
       Sleep 1],
      Returned)"
  by (simp add: max5_config_eq default_consumer_def consume_batch_def empty_read_def
      empty_batch_input_def js_ge_def)

lemma timeout_step:
  "default_consumer max5_config timeout_input (Some r) =
     (Some r,
      [Kafka (Consume 10 (Some 2000)),
       Add ''kafka_timeout_errors'' (Number 1),
       Add ''kafka_empty_reads'' (Number 1),
       Sleep 1],
      Returned)"
  by (simp add: max5_config_eq default_consumer_def consume_batch_def timeout_input_def js_ge_def)

text \<open>
  Claim C1, as stated, fails. With \<open>MAX_EMPTY_READS=5\<close>, after five consecutive reads
  that are empty or time out the virtual user's sixth invocation calls \<open>consume\<close> again,
  and the three empty batches among the five have each added a sample to
  \<open>kafka_reader_error_count\<close>.
\<close>

theorem stops_after_five_empty_reads_counterexample:
  "cc_max_empty_reads max5_config = Some 5 \<and>
   map ci_consume (take 5 five_then_one) =
     [Inr (Some []), Inl ''Unable to read messages: context deadline exceeded'', Inr (Some []),
      Inl ''Unable to read messages: context deadline exceeded'', Inr (Some [])] \<and>
   kafka_calls (snd (vu_loop (default_consumer max5_config) five_then_one (Some (reader_of max5_config)))) =
     replicate 6 (Consume 10 (Some 2000)) \<and>
   counter_total ''kafka_reader_error_count''
     (snd (vu_loop (default_consumer max5_config) (take 5 five_then_one) (Some (reader_of max5_config)))) = 3"
  by (simp add: max5_config_eq [THEN arg_cong, of cc_max_empty_reads] five_then_one_def
      empty_batch_step timeout_step counter_total_def
      empty_batch_input_def [THEN arg_cong, of ci_consume]
      timeout_input_def [THEN arg_cong, of ci_consume] numeral_eq_Suc)


lemma vu_loop_returned:
  "snd (snd (w i l)) = Returned \<Longrightarrow>
   snd (vu_loop w (i # rest) l) = fst (snd (w i l)) @ snd (vu_loop w rest (fst (w i l)))"
  by (auto split: prod.splits)

lemma default_consumer_returned: "snd (snd (default_consumer cfg inp reader)) = Returned"
  by (simp add: default_consumer_def split: option.splits prod.splits)

lemma empty_or_timeout_invocation:
  assumes "ci_consume inp = Inr (Some []) \<or>
           (\<exists>err. ci_consume inp = Inl err \<and> str_includes err ''context deadline exceeded'')"
  shows "fst (default_consumer cfg inp (Some r)) = Some r"
    and "snd (snd (default_consumer cfg inp (Some r))) = Returned"
    and "samples_of ''kafka_empty_reads'' (fst (snd (default_consumer cfg inp (Some r)))) = [Number 1]"
    and "samples_of ''kafka_reader_error_count'' (fst (snd (default_consumer cfg inp (Some r)))) =
           (if ci_consume inp = Inr (Some []) then [Number 1] else [])"
    and "samples_of ''kafka_timeout_errors'' (fst (snd (default_consumer cfg inp (Some r)))) =
           (if ci_consume inp = Inr (Some []) then [] else [Number 1])"
  using assms
  by (auto simp: default_consumer_def consume_batch_def empty_read_def Let_def samples_of_append)

text \<open>
  Claim C1, amended. In the consumer (with \<open>MAX_EMPTY_READS=5\<close> as with any other
  configuration) an invocation whose \<open>consume\<close> returns an empty batch or times out adds
  one sample to \<open>kafka_empty_reads\<close>, keeps the reader and returns; the virtual user's
  loop goes on with its next invocation. A timeout adds one sample to
  \<open>kafka_timeout_errors\<close> and none to \<open>kafka_reader_error_count\<close>; an empty batch
  fails the check \<open>messages were consumed\<close> and so adds one sample to
  \<open>kafka_reader_error_count\<close>, and none to \<open>kafka_timeout_errors\<close>.
\<close>

theorem empty_or_timeout_read:
  assumes "ci_consume inp = Inr (Some []) \<or>
           (\<exists>err. ci_consume inp = Inl err \<and> str_includes err ''context deadline exceeded'')"
  shows "fst (default_consumer cfg inp (Some r)) = Some r \<and>
         snd (snd (default_consumer cfg inp (Some r))) = Returned \<and>
         samples_of ''kafka_empty_reads'' (fst (snd (default_consumer cfg inp (Some r)))) = [Number 1] \<and>
         samples_of ''kafka_reader_error_count'' (fst (snd (default_consumer cfg inp (Some r)))) =
           (if ci_consume inp = Inr (Some []) then [Number 1] else []) \<and>
         samples_of ''kafka_timeout_errors'' (fst (snd (default_consumer cfg inp (Some r)))) =
           (if ci_consume inp = Inr (Some []) then [] else [Number 1]) \<and>
         snd (vu_loop (default_consumer cfg) (inp # rest) (Some r)) =
           fst (snd (default_consumer cfg inp (Some r))) @
           snd (vu_loop (default_consumer cfg) rest (Some r))"
proof -
  note facts = empty_or_timeout_invocation [OF assms, of cfg r]
  from vu_loop_returned [of "default_consumer cfg" inp "Some r" rest] facts
  show ?thesis by simp
qed

theorem empty_or_timeout_read_witness:
  "samples_of ''kafka_reader_error_count''
     (fst (snd (default_consumer max5_config timeout_input (Some (reader_of max5_config))))) = [] \<and>
   samples_of ''kafka_reader_error_count''
     (fst (snd (default_consumer max5_config empty_batch_input (Some (reader_of max5_config))))) =
     [Number 1] \<and>
   snd (snd (default_consumer max5_config timeout_input (Some (reader_of max5_config)))) = Returned"
proof -
  have t: "ci_consume timeout_input = Inr (Some []) \<or>
           (\<exists>err. ci_consume timeout_input = Inl err \<and> str_includes err ''context deadline exceeded'')"
    by (simp add: timeout_input_def)
  have e: "ci_consume empty_batch_input = Inr (Some []) \<or>
           (\<exists>err. ci_consume empty_batch_input = Inl err \<and>
              str_includes err ''context deadline exceeded'')"
    by (simp add: empty_batch_input_def)
  have t': "ci_consume timeout_input \<noteq> Inr (Some [])" by (simp add: timeout_input_def)
  have e': "ci_consume empty_batch_input = Inr (Some [])" by (simp add: empty_batch_input_def)
  from empty_or_timeout_read [OF t, of max5_config "reader_of max5_config" "[]"]
       empty_or_timeout_read [OF e, of max5_config "reader_of max5_config" "[]"] t' e'
  show ?thesis by simp
qed

section \<open>Errors that leave an invocation\<close>

text \<open>
  The improved consumer and the two producers enclose the call under test in a \<open>try\<close>:
  their invocations return whatever that call does. The CRUD script and the original
  consumer catch nothing: an error of a statement or of \<open>consume\<close> leaves the
  invocation.
\<close>

lemma scripts_that_catch:
  "snd (snd (default_consumer cfg ci reader)) = Returned"
  "snd (default_producer_v1 po) = Returned"
  "snd (default_producer_v2 pn) = Returned"
  by (rule default_consumer_returned returned_v1 returned_v2)+

lemma crud_insert_error_uncaught:
  assumes "db_query b (InsertPerson (cr_first_name inp) (cr_last_name inp) (cr_email inp)) db
             = (Inl err, db')"
  shows "default_crud b inp db =
           (db', [Sql (InsertPerson (cr_first_name inp) (cr_last_name inp) (cr_email inp))],
            Threw err)"
  using assms by (simp add: default_crud_def crud_insert_def Let_def)

lemma consumer_v1_error_uncaught:
  "ci_consume inp = Inl err \<Longrightarrow>
   default_consumer_v1 inp = ([Kafka (Consume 10 (Some 5000))], Threw err)"
  by (simp add: default_consumer_v1_def)

text \<open>
  Claim C5. When an invocation of a workload ends by an error that nothing in it caught, the
  loop of the virtual user catches the error at the end of the iteration and records the
  failed iteration: one more in the count of failed iterations, and the error's text in
  the record. The virtual user is not terminated: the loop goes on with the rest of its
  budget, from the state the invocation left.
\<close>

theorem uncaught_error_recorded:
  assumes "w i l = (l', evs, Threw err)"
  shows "vu_loop w (i # rest) l =
           (fst (vu_loop w rest l'), evs @ [IterationFailed err] @ snd (vu_loop w rest l')) \<and>
         failed_iterations (snd (vu_loop w (i # rest) l)) =
           failed_iterations evs + 1 + failed_iterations (snd (vu_loop w rest l')) \<and>
         IterationFailed err \<in> set (snd (vu_loop w (i # rest) l))"
  using assms by (simp add: failed_iterations_def split: prod.splits)

theorem uncaught_error_recorded_witness:
  "failed_iterations (snd (vu_loop crud_workload lost_connection_budget (setup_crud 0))) = 1 \<and>
   counter_total ''rows_inserted''
     (snd (vu_loop crud_workload lost_connection_budget (setup_crud 0))) = 1 \<and>
   counter_total ''rows_deleted''
     (snd (vu_loop crud_workload lost_connection_budget (setup_crud 0))) = 1"
proof -
  let ?inp = "example_person ''ada@example.org''"
  have first: "crud_workload (?inp, Some ''connection reset'') (setup_crud 0) =
      (setup_crud 0, [Sql (InsertPerson ''Ada'' ''Lovelace'' ''ada@example.org'')],
       Threw ''connection reset'')"
    by (simp add: crud_workload_def default_crud_def crud_insert_def pg_backend_def
        example_person_def Let_def)
  have second: "snd (vu_loop crud_workload [(?inp, None)] (setup_crud 0)) =
      [Sql (InsertPerson ''Ada'' ''Lovelace'' ''ada@example.org''),
       Add ''db_insert_duration'' (Number 7),
       Add ''rows_inserted'' (Number 1),
       Add ''insert_success'' (Boolean True),
       Sql (UpdateLastName ''King'' (JNum 1)),
       Add ''db_update_duration'' (Number 7),
       Add ''rows_updated'' (Number 1),
       Add ''update_success'' (Boolean True),
       Sql (SelectById (JNum 1)),
       Add ''db_select_duration'' (Number 7),
       Add ''rows_selected'' (Number 1),
       Add ''select_success'' (Boolean True),
       Sql (DeleteById (JNum 1)),
       Add ''db_delete_duration'' (Number 7),
       Add ''rows_deleted'' (Number 1),
       Add ''delete_success'' (Boolean True),
       Check ''crud_round_ok'' True]"
    by (simp add: crud_workload_def default_crud_def crud_insert_def crud_update_def
        crud_select_def crud_delete_def pg_backend_def setup_crud_def example_person_def
        property_def id_matches_def Let_def)
  from uncaught_error_recorded
         [where w = crud_workload and i = "(?inp, Some ''connection reset'')"
            and l = "setup_crud 0" and rest = "[(?inp, None)]", OF first]
       second
  show ?thesis
    by (simp add: lost_connection_budget_def failed_iterations_def counter_total_def)
qed

section \<open>One invocation of the CRUD script\<close>

text \<open>
  Claim C8, as stated, fails: an invocation whose INSERT returns no row records two
  samples, not one. The duration of the INSERT is added to \<open>db_insert_duration\<close> before
  the id is looked at.
\<close>

theorem insert_without_row_counterexample:
  "db_query no_rows_backend (InsertPerson ''Ada'' ''Lovelace'' ''ada@example.org'') () = (Inr [], ()) \<and>
   adds_of (fst (snd (default_crud no_rows_backend (example_person ''ada@example.org'') ()))) =
     [(''db_insert_duration'', Number 7), (''insert_success'', Boolean False)]"
  by (simp add: no_rows_backend_def default_crud_def crud_insert_def example_person_def)

text \<open>
  Claim C8, amended. In the CRUD script, an invocation whose INSERT returns no row sends
  no UPDATE, SELECT or DELETE and records exactly two samples: the duration of the INSERT
  on the trend \<open>db_insert_duration\<close> and a false observation on the rate
  \<open>insert_success\<close>. It writes one line to the console and returns; the four counters
  and the trends and rates of the update, the select and the delete get no sample.
\<close>

theorem insert_without_row:
  assumes "db_query b (InsertPerson (cr_first_name inp) (cr_last_name inp) (cr_email inp)) db
             = (Inr [], db')"
  shows "default_crud b inp db =
           (db',
            [Sql (InsertPerson (cr_first_name inp) (cr_last_name inp) (cr_email inp)),
             Add ''db_insert_duration'' (Number (cr_clock inp 1 - cr_clock inp 0)),
             Add ''insert_success'' (Boolean False),
             Console Failure ''Failed to insert record''],
            Returned)"
  using assms by (simp add: default_crud_def crud_insert_def Let_def)

theorem insert_without_row_witness:
  "default_crud no_rows_backend (example_person ''ada@example.org'') () =
     ((),
      [Sql (InsertPerson ''Ada'' ''Lovelace'' ''ada@example.org''),
       Add ''db_insert_duration'' (Number 7),
       Add ''insert_success'' (Boolean False),
       Console Failure ''Failed to insert record''],
      Returned)"
proof -
  have h: "db_query no_rows_backend
             (InsertPerson (cr_first_name (example_person ''ada@example.org''))
                (cr_last_name (example_person ''ada@example.org''))
                (cr_email (example_person ''ada@example.org''))) () = (Inr [], ())"
    by (simp add: no_rows_backend_def)
  from insert_without_row [OF h] show ?thesis by (simp add: example_person_def)
qed

section \<open>Counters only grow\<close>

lemma adds_of_append: "adds_of (xs @ ys) = adds_of xs @ adds_of ys"
  by (induction xs rule: adds_of.induct) simp_all

lemma counters_grow_append: "counters_grow (xs @ ys) \<longleftrightarrow> counters_grow xs \<and> counters_grow ys"
  by (simp add: counters_grow_def adds_of_append)

lemma counters_grow_Nil: "counters_grow []"
  by (simp add: counters_grow_def)

lemma samples_of_adds: "samples_of name evs = map snd (filter (\<lambda>p. fst p = name) (adds_of evs))"
  by (induction name evs rule: samples_of.induct) simp_all

lemma counter_total_grows:
  assumes "counters_grow evs" and "name \<in> set counter_series"
  shows "counter_total name trace \<le> counter_total name (trace @ evs)"
proof -
  have "\<forall>v \<in> set (samples_of name evs). 0 \<le> sample_number v"
    using assms by (auto simp: counters_grow_def samples_of_adds list_all_iff)
  then have "0 \<le> sum_list (map sample_number (samples_of name evs))"
    by (intro sum_list_nonneg) auto
  then show ?thesis by (simp add: counter_total_def samples_of_append)
qed

lemma crud_insert_grows: "counters_grow (fst (snd (crud_insert b inp db)))"
  by (simp add: crud_insert_def Let_def counters_grow_def counter_series_def
      split: prod.splits sum.splits)

lemma crud_update_grows: "counts_rows b \<Longrightarrow> counters_grow (fst (snd (crud_update b inp rid db)))"
  by (auto simp: crud_update_def Let_def counters_grow_def counter_series_def counts_rows_def
      split: prod.splits sum.splits)

lemma crud_select_grows: "counters_grow (fst (snd (crud_select b inp rid db)))"
  by (simp add: crud_select_def Let_def counters_grow_def counter_series_def
      split: prod.splits sum.splits)

lemma crud_delete_grows: "counts_rows b \<Longrightarrow> counters_grow (fst (snd (crud_delete b inp rid db)))"
  by (auto simp: crud_delete_def Let_def counters_grow_def counter_series_def counts_rows_def
      split: prod.splits sum.splits)

lemma default_crud_grows:
  assumes "counts_rows b"
  shows "counters_grow (fst (snd (default_crud b inp db)))"
proof -
  obtain db1 e1 r1 where i: "crud_insert b inp db = (db1, e1, r1)" by (cases "crud_insert b inp db")
  have g1: "counters_grow e1" using crud_insert_grows [of b inp db] i by simp
  show ?thesis
  proof (cases r1)
    case (Inl out)
    with i g1 show ?thesis by (simp add: default_crud_def)
  next
    case (Inr rid)
    obtain db2 e2 r2 where u: "crud_update b inp rid db1 = (db2, e2, r2)"
      by (cases "crud_update b inp rid db1")
    obtain db3 e3 r3 where s: "crud_select b inp rid db2 = (db3, e3, r3)"
      by (cases "crud_select b inp rid db2")
    obtain db4 e4 r4 where d: "crud_delete b inp rid db3 = (db4, e4, r4)"
      by (cases "crud_delete b inp rid db3")
    have g2: "counters_grow e2" using crud_update_grows [OF assms, of inp rid db1] u by simp
    have g3: "counters_grow e3" using crud_select_grows [of b inp rid db2] s by simp
    have g4: "counters_grow e4" using crud_delete_grows [OF assms, of inp rid db3] d by simp
    from i Inr u s d g1 g2 g3 g4 show ?thesis
      by (simp add: default_crud_def counters_grow_append split: option.splits)
  qed
qed

lemma pg_counts_rows: "counts_rows (pg_backend fault)"
  unfolding counts_rows_def
proof (intro allI impI)
  fix statement db affected db'
  assume "db_exec (pg_backend fault) statement db = (Inr affected, db')"
  then show "0 \<le> affected"
    by (cases statement) (auto simp: pg_backend_def Let_def split: option.splits if_splits)
qed

lemma consumer_grows: "counters_grow (fst (snd (default_consumer cfg ci reader)))"
  by (simp add: default_consumer_def consume_batch_def empty_read_def Let_def counters_grow_def
      counter_series_def adds_of_append split: option.splits sum.splits prod.splits)

lemma producer_v1_grows: "counters_grow (fst (default_producer_v1 po))"
  by (simp add: default_producer_v1_def Let_def counters_grow_def counter_series_def
      split: option.splits)

lemma producer_v2_grows: "counters_grow (fst (default_producer_v2 pn))"
  by (simp add: default_producer_v2_def Let_def counters_grow_def counter_series_def
      split: option.splits)

lemma consumer_v1_grows: "counters_grow (fst (default_consumer_v1 co))"
  by (simp add: default_consumer_v1_def Let_def counters_grow_def counter_series_def
      adds_of_append split: option.splits sum.splits)

text \<open>
  Claim C7. Every value a workload adds to a Counter is not negative: an invocation of the
  CRUD script (for a client whose \<open>rowsAffected()\<close> is a count, as that of the table
  \<open>tb.perf_test\<close> is), of either consumer and of either producer lets the counters grow.
  So the aggregate of a counter, the sum of its samples, never decreases when the events
  of an invocation are added to a trace.
\<close>

theorem counters_never_decrease:
  "(counts_rows b \<longrightarrow> counters_grow (fst (snd (default_crud b inp db)))) \<and>
   counters_grow (fst (snd (default_crud (pg_backend fault) inp pg))) \<and>
   counters_grow (fst (snd (default_consumer cfg ci reader))) \<and>
   counters_grow (fst (default_consumer_v1 co)) \<and>
   counters_grow (fst (default_producer_v1 po)) \<and>
   counters_grow (fst (default_producer_v2 pn)) \<and>
   (counters_grow evs \<and> name \<in> set counter_series \<longrightarrow>
      counter_total name trace \<le> counter_total name (trace @ evs))"
  using default_crud_grows [of b inp db] default_crud_grows [OF pg_counts_rows, of fault inp pg]
    consumer_grows [of cfg ci reader] consumer_v1_grows [of co]
    producer_v1_grows [of po] producer_v2_grows [of pn]
    counter_total_grows [of evs name trace]
  by blast

theorem counters_never_decrease_witness:
  "counters_grow
     (fst (snd (default_crud (pg_backend None) (example_person ''ada@example.org'') (setup_crud 0)))) \<and>
   counter_total ''rows_deleted'' [Add ''rows_deleted'' (Number 2)]
     \<le> counter_total ''rows_deleted''
         ([Add ''rows_deleted'' (Number 2)] @ [Add ''rows_deleted'' (Number 1)])"
proof -
  have g: "counters_grow [Add ''rows_deleted'' (Number 1)]"
    by (simp add: counters_grow_def counter_series_def)
  have n: "''rows_deleted'' \<in> set counter_series"
    by (simp add: counter_series_def)
  from counters_never_decrease
         [where b = "pg_backend None" and inp = "example_person ''ada@example.org''"
            and db = "setup_crud 0" and evs = "[Add ''rows_deleted'' (Number 1)]"
            and name = "''rows_deleted''" and trace = "[Add ''rows_deleted'' (Number 2)]"]
       pg_counts_rows [of None] g n
  show ?thesis by blast
qed

section \<open>Runs of the CRUD script\<close>

lemma setup_ok: "db_ok (setup_crud now)"
  by (simp add: db_ok_def setup_crud_def row_ids_def)

lemma one_row_with_id:
  assumes "distinct (map p_id rows)" and "n \<in> p_id ` set rows"
  shows "length (filter (id_matches (JNum n)) rows) = 1"
proof -
  have "filter (id_matches (JNum n)) rows = filter (\<lambda>r. p_id r = n) rows"
    by (rule filter_cong) (auto simp: id_matches_def)
  moreover have "length (filter (\<lambda>r. p_id r = n) rows) = length (filter (\<lambda>k. k = n) (map p_id rows))"
    by (simp add: filter_map o_def)
  moreover have "length (filter (\<lambda>k. k = n) (map p_id rows)) = 1"
    using assms
  proof (induction rows)
    case Nil
    then show ?case by simp
  next
    case (Cons r rows)
    show ?case
    proof (cases "p_id r = n")
      case True
      with Cons.prems have "n \<notin> set (map p_id rows)" by auto
      then have "filter (\<lambda>k. k = n) (map p_id rows) = []" by (auto simp: filter_empty_conv)
      with True show ?thesis by simp
    next
      case False
      with Cons show ?thesis by auto
    qed
  qed
  ultimately show ?thesis by simp
qed

lemma pg_insert_result:
  assumes ok: "db_ok db" and run: "pg_run (InsertPerson f l e) db = (r, db')"
  shows "db_ok db'"
    and "(\<exists>err. r = Inl err \<and> row_ids db' = row_ids db) \<or>
         (r = Inr ([[(''id'', JNum (pg_next_id db))]], 1) \<and> pg_next_id db \<notin> row_ids db \<and>
          row_ids db' = insert (pg_next_id db) (row_ids db))"
proof -
  from ok have fresh: "pg_next_id db \<notin> row_ids db" by (auto simp: db_ok_def)
  have below: "\<forall>n \<in> row_ids db. n < pg_next_id db + 1" using ok by (auto simp: db_ok_def)
  show "db_ok db'"
  proof (cases "e \<in> set (map p_email (pg_rows db))")
    case True
    with run have "db' = db \<lparr> pg_next_id := pg_next_id db + 1 \<rparr>" by (simp add: Let_def)
    with ok below show ?thesis by (simp add: db_ok_def row_ids_def)
  next
    case False
    with run have "db' = db \<lparr> pg_next_id := pg_next_id db + 1,
        pg_rows := pg_rows db @
          [\<lparr> p_id = pg_next_id db, p_first_name = f, p_last_name = l, p_email = e,
             p_updated_at = pg_now db \<rparr>] \<rparr>"
      by (simp add: Let_def)
    with ok below fresh show ?thesis by (simp add: db_ok_def row_ids_def)
  qed
  show "(\<exists>err. r = Inl err \<and> row_ids db' = row_ids db) \<or>
         (r = Inr ([[(''id'', JNum (pg_next_id db))]], 1) \<and> pg_next_id db \<notin> row_ids db \<and>
          row_ids db' = insert (pg_next_id db) (row_ids db))"
  proof (cases "e \<in> set (map p_email (pg_rows db))")
    case True
    with run show ?thesis by (auto simp: Let_def row_ids_def)
  next
    case False
    with run fresh show ?thesis by (auto simp: Let_def row_ids_def)
  qed
qed

lemma pg_update_result:
  assumes "db_ok db" and "pg_run (UpdateLastName l v) db = (r, db')"
  shows "db_ok db'" and "row_ids db' = row_ids db" and "\<exists>k. r = Inr ([], k)"
proof -
  let ?g = "\<lambda>r. if id_matches v r then r \<lparr> p_last_name := l, p_updated_at := pg_now db \<rparr> else r"
  have same: "\<And>r. p_id (?g r) = p_id r" by simp
  have ids: "map p_id (map ?g (pg_rows db)) = map p_id (pg_rows db)"
    unfolding map_map o_def same ..
  from assms(2) have db': "db' = db \<lparr> pg_rows := map ?g (pg_rows db) \<rparr>"
    by auto
  have "set (map p_id (pg_rows db')) = set (map p_id (pg_rows db))"
    unfolding db' using ids by simp
  then show r: "row_ids db' = row_ids db" by (simp add: row_ids_def)
  have "distinct (map p_id (pg_rows db'))"
    unfolding db' using ids assms(1) by (simp add: db_ok_def del: map_map)
  with assms(1) r db' show "db_ok db'" by (simp add: db_ok_def)
  from assms(2) show "\<exists>k. r = Inr ([], k)" by auto
qed

lemma pg_select_result:
  assumes "pg_run (SelectById v) db = (r, db')"
  shows "db' = db" and "\<exists>rows. r = Inr (rows, int (length rows))"
  using assms by (auto simp: Let_def)

lemma pg_delete_result:
  assumes "db_ok db" and "n \<in> row_ids db" and "pg_run (DeleteById (JNum n)) db = (r, db')"
  shows "db_ok db'" and "row_ids db' = row_ids db - {n}" and "r = Inr ([], 1)"
proof -
  from assms(3) have db': "db' = db \<lparr> pg_rows := filter (\<lambda>r. \<not> id_matches (JNum n) r) (pg_rows db) \<rparr>"
    and r: "r = Inr ([], int (length (filter (id_matches (JNum n)) (pg_rows db))))"
    by auto
  from assms(1,2) r one_row_with_id [of "pg_rows db" n] show "r = Inr ([], 1)"
    by (simp add: db_ok_def row_ids_def)
  show ids: "row_ids db' = row_ids db - {n}"
    using assms(1) db' by (auto simp: row_ids_def id_matches_def)
  from assms(1) db' ids show "db_ok db'"
    by (auto simp: db_ok_def distinct_map_filter row_ids_def)
qed

lemma block_insert:
  assumes ok: "db_ok db"
    and blk: "crud_block (pg_backend fault) inp AtInsert db = (db', evs, nxt)"
  shows "db_ok db' \<and> samples_of ''rows_deleted'' evs = [] \<and>
         ((\<exists>err. nxt = Inl (Threw err) \<and> row_ids db' = row_ids db \<and>
             samples_of ''rows_inserted'' evs = []) \<or>
          (nxt = Inr (AtUpdate (JNum (pg_next_id db))) \<and> pg_next_id db \<notin> row_ids db \<and>
             row_ids db' = insert (pg_next_id db) (row_ids db) \<and>
             samples_of ''rows_inserted'' evs = [Number 1]))"
proof (cases fault)
  case (Some err)
  with blk ok show ?thesis
    by (auto simp: crud_insert_def pg_backend_def Let_def)
next
  case None
  let ?st = "InsertPerson (cr_first_name inp) (cr_last_name inp) (cr_email inp)"
  obtain r db1 where run: "pg_run ?st db = (r, db1)" by (cases "pg_run ?st db")
  note res = pg_insert_result [OF ok run]
  from ok have pos: "pg_next_id db \<noteq> 0" by (simp add: db_ok_def)
  from res(2) show ?thesis
  proof
    assume "\<exists>err. r = Inl err \<and> row_ids db1 = row_ids db"
    then obtain err where "r = Inl err" and "row_ids db1 = row_ids db" by blast
    with blk None run res(1) show ?thesis
      by (auto simp: crud_insert_def pg_backend_def Let_def simp del: pg_run.simps)
  next
    assume "r = Inr ([[(''id'', JNum (pg_next_id db))]], 1) \<and> pg_next_id db \<notin> row_ids db \<and>
            row_ids db1 = insert (pg_next_id db) (row_ids db)"
    with blk None run res(1) pos show ?thesis
      by (auto simp: crud_insert_def pg_backend_def Let_def property_def simp del: pg_run.simps)
  qed
qed

lemma block_update:
  assumes ok: "db_ok db"
    and blk: "crud_block (pg_backend fault) inp (AtUpdate rid) db = (db', evs, nxt)"
  shows "db_ok db' \<and> row_ids db' = row_ids db \<and> samples_of ''rows_deleted'' evs = [] \<and>
         samples_of ''rows_inserted'' evs = [] \<and>
         ((\<exists>err. nxt = Inl (Threw err)) \<or> nxt = Inr (AtSelect rid))"
proof (cases fault)
  case (Some err)
  with blk ok show ?thesis
    by (auto simp: crud_update_def pg_backend_def Let_def)
next
  case None
  let ?st = "UpdateLastName (cr_new_last_name inp) rid"
  obtain r db1 where run: "pg_run ?st db = (r, db1)" by (cases "pg_run ?st db")
  note res = pg_update_result [OF ok run]
  from res(3) obtain k where "r = Inr ([], k)" by blast
  with blk None run res(1,2) show ?thesis
    by (auto simp: crud_update_def pg_backend_def Let_def simp del: pg_run.simps)
qed

lemma block_select:
  assumes ok: "db_ok db"
    and blk: "crud_block (pg_backend fault) inp (AtSelect rid) db = (db', evs, nxt)"
  shows "db' = db \<and> samples_of ''rows_deleted'' evs = [] \<and>
         samples_of ''rows_inserted'' evs = [] \<and>
         ((\<exists>err. nxt = Inl (Threw err)) \<or> nxt = Inr (AtDelete rid))"
proof (cases fault)
  case (Some err)
  with blk ok show ?thesis
    by (auto simp: crud_select_def pg_backend_def Let_def)
next
  case None
  let ?st = "SelectById rid"
  obtain r db1 where run: "pg_run ?st db = (r, db1)" by (cases "pg_run ?st db")
  note res = pg_select_result [OF run]
  from res(2) obtain rows where "r = Inr (rows, int (length rows))" by blast
  with blk None run res(1) show ?thesis
    by (auto simp: crud_select_def pg_backend_def Let_def simp del: pg_run.simps)
qed

lemma block_delete:
  assumes ok: "db_ok db" and present: "n \<in> row_ids db"
    and blk: "crud_block (pg_backend fault) inp (AtDelete (JNum n)) db = (db', evs, nxt)"
  shows "db_ok db' \<and> samples_of ''rows_inserted'' evs = [] \<and>
         ((\<exists>err. nxt = Inl (Threw err) \<and> row_ids db' = row_ids db \<and>
             samples_of ''rows_deleted'' evs = []) \<or>
          (nxt = Inl Returned \<and> row_ids db' = row_ids db - {n} \<and>
             samples_of ''rows_deleted'' evs = [Number 1]))"
proof (cases fault)
  case (Some err)
  with blk have "db' = db" "evs = [Sql (DeleteById (JNum n))]" "nxt = Inl (Threw err)"
    by (simp_all add: crud_delete_def pg_backend_def Let_def)
  with ok show ?thesis by simp
next
  case None
  let ?st = "DeleteById (JNum n)"
  obtain r db1 where run: "pg_run ?st db = (r, db1)" by (cases "pg_run ?st db")
  note res = pg_delete_result [OF ok present run]
  have ex: "db_exec (pg_backend None) ?st db = (Inr 1, db1)"
    using run res(3) by (simp add: pg_backend_def del: pg_run.simps)
  from blk None have
    "db' = db1" "nxt = Inl Returned"
    "evs = [Sql ?st,
       Add ''db_delete_duration'' (Number (cr_clock inp 7 - cr_clock inp 6)),
       Add ''rows_deleted'' (Number 1),
       Add ''delete_success'' (Boolean True), Check ''crud_round_ok'' True]"
    by (auto simp: crud_delete_def Let_def ex)
  with res(1,2) show ?thesis by simp
qed

lemma failed_iterations_append:
  "failed_iterations (xs @ ys) = failed_iterations xs + failed_iterations ys"
  by (simp add: failed_iterations_def)

lemma only_ones_append: "only_ones (xs @ ys) \<longleftrightarrow> only_ones xs \<and> only_ones ys"
  by (simp add: only_ones_def)

lemma failed_iterations_blocks:
  "failed_iterations (fst (snd (crud_block b inp pc db))) = 0"
  by (cases pc)
     (auto simp: failed_iterations_def crud_insert_def crud_update_def crud_select_def
        crud_delete_def Let_def split: prod.splits sum.splits option.splits)

lemma start_inv: "run_inv (crud_start now inputs)"
  by (simp add: run_inv_def crud_start_def setup_ok in_flight_def only_ones_def
      failed_iterations_def)

lemma tick_inv: "run_inv s \<Longrightarrow> run_inv (s \<lparr> run_db := (run_db s) \<lparr> pg_now := now \<rparr> \<rparr>)"
  by (simp add: run_inv_def in_flight_def db_ok_def row_ids_def)

lemma step_kinds:
  assumes inv: "run_inv s"
    and blk: "crud_block (pg_backend fault) input (run_pc s v) (run_db s) = (db', evs, nxt)"
  shows "db_ok db' \<and>
     ((\<exists>err. nxt = Inl (Threw err) \<and> row_ids db' = row_ids (run_db s) \<and>
         samples_of ''rows_inserted'' evs = [] \<and> samples_of ''rows_deleted'' evs = []) \<or>
      (\<exists>k. run_pc s v = AtInsert \<and> nxt = Inr (AtUpdate (JNum k)) \<and> k \<notin> row_ids (run_db s) \<and>
         row_ids db' = insert k (row_ids (run_db s)) \<and>
         samples_of ''rows_inserted'' evs = [Number 1] \<and> samples_of ''rows_deleted'' evs = []) \<or>
      (\<exists>pc. run_pc s v \<noteq> AtInsert \<and> nxt = Inr pc \<and> pc \<noteq> AtInsert \<and>
         pc_id pc = pc_id (run_pc s v) \<and> row_ids db' = row_ids (run_db s) \<and>
         samples_of ''rows_inserted'' evs = [] \<and> samples_of ''rows_deleted'' evs = []) \<or>
      (\<exists>n. run_pc s v = AtDelete (JNum n) \<and> nxt = Inl Returned \<and>
         row_ids db' = row_ids (run_db s) - {n} \<and>
         samples_of ''rows_inserted'' evs = [] \<and> samples_of ''rows_deleted'' evs = [Number 1]))"
proof -
  from inv have ok: "db_ok (run_db s)" by (simp add: run_inv_def)
  show ?thesis
  proof (cases "run_pc s v")
    case AtInsert
    with blk block_insert [OF ok, of fault input db' evs nxt] show ?thesis by auto
  next
    case (AtUpdate rid)
    with blk block_update [OF ok, of fault input rid db' evs nxt] show ?thesis by auto
  next
    case (AtSelect rid)
    with blk block_select [OF ok, of fault input rid db' evs nxt] ok show ?thesis by auto
  next
    case (AtDelete rid)
    then have "v \<in> in_flight s" by (simp add: in_flight_def)
    with inv AtDelete obtain n where rid: "rid = JNum n" and n: "n \<in> row_ids (run_db s)"
      by (auto simp: run_inv_def)
    with blk AtDelete block_delete [OF ok n, of fault input db' evs nxt] show ?thesis by auto
  qed
qed


lemma vu_step_fields:
  assumes "crud_block (pg_backend fault)
             (if run_pc s v = AtInsert then inp else run_input s v) (run_pc s v) (run_db s)
           = (db', evs, nxt)"
  shows "run_db (vu_step v inp fault s) = db'"
    and "run_pc (vu_step v inp fault s) =
           (run_pc s)(v := (case nxt of Inl out \<Rightarrow> AtInsert | Inr pc \<Rightarrow> pc))"
    and "run_trace (vu_step v inp fault s) =
           run_trace s @ evs @ (case nxt of Inl (Threw err) \<Rightarrow> [IterationFailed err] | _ \<Rightarrow> [])"
  using assms by (simp_all add: vu_step_def Let_def)

lemma in_flight_update:
  "run_pc s' = (run_pc s)(v := pc) \<Longrightarrow>
   in_flight s' = (if pc = AtInsert then in_flight s - {v} else insert v (in_flight s))"
  by (auto simp: in_flight_def)

lemma step_inv:
  assumes inv: "run_inv s"
  shows "run_inv (vu_step v inp fault s)"
proof -
  let ?input = "if run_pc s v = AtInsert then inp else run_input s v"
  let ?s' = "vu_step v inp fault s"
  obtain db' evs nxt where
    blk: "crud_block (pg_backend fault) ?input (run_pc s v) (run_db s) = (db', evs, nxt)"
    by (cases "crud_block (pg_backend fault) ?input (run_pc s v) (run_db s)")
  note f = vu_step_fields [OF blk]
  from inv have
    fin: "finite (in_flight s)" and
    rows: "\<forall>w \<in> in_flight s. \<exists>n. pc_id (run_pc s w) = JNum n \<and> n \<in> row_ids (run_db s)" and
    apart: "\<forall>a \<in> in_flight s. \<forall>b \<in> in_flight s. a \<noteq> b \<longrightarrow> pc_id (run_pc s a) \<noteq> pc_id (run_pc s b)" and
    ones_i: "only_ones (samples_of ''rows_inserted'' (run_trace s))" and
    ones_d: "only_ones (samples_of ''rows_deleted'' (run_trace s))" and
    count: "failed_iterations (run_trace s) = 0 \<longrightarrow>
        length (samples_of ''rows_inserted'' (run_trace s)) =
        length (samples_of ''rows_deleted'' (run_trace s)) + card (in_flight s)"
    by (simp_all add: run_inv_def)
  have nofail: "failed_iterations evs = 0"
    using failed_iterations_blocks [of "pg_backend fault" ?input "run_pc s v" "run_db s"] blk
    by simp
  from step_kinds [OF inv blk] have ok': "db_ok db'" by blast
  from step_kinds [OF inv blk] consider
    (failed) err where "nxt = Inl (Threw err)" "row_ids db' = row_ids (run_db s)"
       "samples_of ''rows_inserted'' evs = []" "samples_of ''rows_deleted'' evs = []"
  | (inserted) k where "run_pc s v = AtInsert" "nxt = Inr (AtUpdate (JNum k))"
       "k \<notin> row_ids (run_db s)" "row_ids db' = insert k (row_ids (run_db s))"
       "samples_of ''rows_inserted'' evs = [Number 1]" "samples_of ''rows_deleted'' evs = []"
  | (advanced) pc where "run_pc s v \<noteq> AtInsert" "nxt = Inr pc" "pc \<noteq> AtInsert"
       "pc_id pc = pc_id (run_pc s v)" "row_ids db' = row_ids (run_db s)"
       "samples_of ''rows_inserted'' evs = []" "samples_of ''rows_deleted'' evs = []"
  | (deleted) n where "run_pc s v = AtDelete (JNum n)" "nxt = Inl Returned"
       "row_ids db' = row_ids (run_db s) - {n}"
       "samples_of ''rows_inserted'' evs = []" "samples_of ''rows_deleted'' evs = [Number 1]"
    by blast
  then show ?thesis
  proof cases
    case failed
    have pc: "run_pc ?s' = (run_pc s)(v := AtInsert)" using f(2) failed(1) by simp
    have fl: "in_flight ?s' = in_flight s - {v}" using in_flight_update [OF pc] by simp
    have tr: "run_trace ?s' = run_trace s @ evs @ [IterationFailed err]"
      using f(3) failed(1) by simp
    have "failed_iterations (run_trace ?s') \<noteq> 0"
      unfolding tr by (simp add: failed_iterations_def)
    moreover have "\<forall>w \<in> in_flight ?s'. \<exists>n. pc_id (run_pc ?s' w) = JNum n \<and> n \<in> row_ids (run_db ?s')"
      using rows by (simp add: fl pc f(1) failed(2))
    moreover have "\<forall>a \<in> in_flight ?s'. \<forall>b \<in> in_flight ?s'. a \<noteq> b \<longrightarrow>
        pc_id (run_pc ?s' a) \<noteq> pc_id (run_pc ?s' b)"
      using apart by (simp add: fl pc)
    moreover have "only_ones (samples_of ''rows_inserted'' (run_trace ?s'))"
      "only_ones (samples_of ''rows_deleted'' (run_trace ?s'))"
      using ones_i ones_d failed(3,4) by (simp_all add: tr samples_of_append only_ones_def)
    ultimately show ?thesis
      using ok' fin by (simp add: run_inv_def f(1) fl)
  next
    case inserted
    have pc: "run_pc ?s' = (run_pc s)(v := AtUpdate (JNum k))" using f(2) inserted(2) by simp
    have fl: "in_flight ?s' = insert v (in_flight s)" using in_flight_update [OF pc] by simp
    have idle: "v \<notin> in_flight s" using inserted(1) by (simp add: in_flight_def)
    have tr: "run_trace ?s' = run_trace s @ evs" using f(3) inserted(2) by simp
    have others: "\<forall>w \<in> in_flight s. pc_id (run_pc s w) \<noteq> JNum k"
      using rows inserted(3) by fastforce
    have "\<forall>w \<in> in_flight ?s'. \<exists>n. pc_id (run_pc ?s' w) = JNum n \<and> n \<in> row_ids (run_db ?s')"
      using rows idle by (auto simp: fl pc f(1) inserted(4))
    moreover have "\<forall>a \<in> in_flight ?s'. \<forall>b \<in> in_flight ?s'. a \<noteq> b \<longrightarrow>
        pc_id (run_pc ?s' a) \<noteq> pc_id (run_pc ?s' b)"
      using apart others idle by (auto simp: fl pc)
    moreover have "only_ones (samples_of ''rows_inserted'' (run_trace ?s'))"
      "only_ones (samples_of ''rows_deleted'' (run_trace ?s'))"
      using ones_i ones_d inserted(5,6) by (simp_all add: tr samples_of_append only_ones_def)
    moreover have "failed_iterations (run_trace ?s') = 0 \<longrightarrow>
        length (samples_of ''rows_inserted'' (run_trace ?s')) =
        length (samples_of ''rows_deleted'' (run_trace ?s')) + card (in_flight ?s')"
      using count fin idle inserted(5,6)
      by (simp add: tr fl samples_of_append failed_iterations_append)
    ultimately show ?thesis
      using ok' fin by (simp add: run_inv_def f(1) fl)
  next
    case advanced
    have pc: "run_pc ?s' = (run_pc s)(v := pc)" using f(2) advanced(2) by simp
    have busy: "v \<in> in_flight s" using advanced(1) by (simp add: in_flight_def)
    have fl: "in_flight ?s' = in_flight s"
      using in_flight_update [OF pc] advanced(3) busy by auto
    have tr: "run_trace ?s' = run_trace s @ evs" using f(3) advanced(2) by simp
    have ids: "\<And>w. pc_id (run_pc ?s' w) = pc_id (run_pc s w)"
      using advanced(4) by (simp add: pc)
    have "\<forall>w \<in> in_flight ?s'. \<exists>n. pc_id (run_pc ?s' w) = JNum n \<and> n \<in> row_ids (run_db ?s')"
      using rows by (simp add: fl ids f(1) advanced(5))
    moreover have "\<forall>a \<in> in_flight ?s'. \<forall>b \<in> in_flight ?s'. a \<noteq> b \<longrightarrow>
        pc_id (run_pc ?s' a) \<noteq> pc_id (run_pc ?s' b)"
      using apart by (simp add: fl ids)
    moreover have "only_ones (samples_of ''rows_inserted'' (run_trace ?s'))"
      "only_ones (samples_of ''rows_deleted'' (run_trace ?s'))"
      using ones_i ones_d advanced(6,7) by (simp_all add: tr samples_of_append only_ones_def)
    moreover have "failed_iterations (run_trace ?s') = 0 \<longrightarrow>
        length (samples_of ''rows_inserted'' (run_trace ?s')) =
        length (samples_of ''rows_deleted'' (run_trace ?s')) + card (in_flight ?s')"
      using count advanced(6,7)
      by (simp add: tr fl samples_of_append failed_iterations_append)
    ultimately show ?thesis
      using ok' fin by (simp add: run_inv_def f(1) fl)
  next
    case deleted
    have pc: "run_pc ?s' = (run_pc s)(v := AtInsert)" using f(2) deleted(2) by simp
    have busy: "v \<in> in_flight s" using deleted(1) by (simp add: in_flight_def)
    have fl: "in_flight ?s' = in_flight s - {v}" using in_flight_update [OF pc] by simp
    have tr: "run_trace ?s' = run_trace s @ evs" using f(3) deleted(2) by simp
    have mine: "pc_id (run_pc s v) = JNum n" using deleted(1) by simp
    have others: "\<forall>w \<in> in_flight s - {v}. pc_id (run_pc s w) \<noteq> JNum n"
      using apart busy mine by fastforce
    have "\<forall>w \<in> in_flight ?s'. \<exists>m. pc_id (run_pc ?s' w) = JNum m \<and> m \<in> row_ids (run_db ?s')"
    proof
      fix w assume w: "w \<in> in_flight ?s'"
      then have w': "w \<in> in_flight s" "w \<noteq> v" by (simp_all add: fl)
      with rows obtain m where m: "pc_id (run_pc s w) = JNum m" "m \<in> row_ids (run_db s)"
        by blast
      with others w' have "m \<noteq> n" by auto
      with m w' show "\<exists>m. pc_id (run_pc ?s' w) = JNum m \<and> m \<in> row_ids (run_db ?s')"
        by (simp add: pc f(1) deleted(3))
    qed
    moreover have "\<forall>a \<in> in_flight ?s'. \<forall>b \<in> in_flight ?s'. a \<noteq> b \<longrightarrow>
        pc_id (run_pc ?s' a) \<noteq> pc_id (run_pc ?s' b)"
      using apart by (simp add: fl pc)
    moreover have "only_ones (samples_of ''rows_inserted'' (run_trace ?s'))"
      "only_ones (samples_of ''rows_deleted'' (run_trace ?s'))"
      using ones_i ones_d deleted(4,5) by (simp_all add: tr samples_of_append only_ones_def)
    moreover have "failed_iterations (run_trace ?s') = 0 \<longrightarrow>
        length (samples_of ''rows_inserted'' (run_trace ?s')) =
        length (samples_of ''rows_deleted'' (run_trace ?s')) + card (in_flight ?s')"
    proof
      assume "failed_iterations (run_trace ?s') = 0"
      then have "failed_iterations (run_trace s) = 0" by (simp add: tr failed_iterations_append)
      with count have c: "length (samples_of ''rows_inserted'' (run_trace s)) =
        length (samples_of ''rows_deleted'' (run_trace s)) + card (in_flight s)" by simp
      have "card (in_flight s) = Suc (card (in_flight s - {v}))"
        using card.remove [OF fin busy] .
      with c deleted(4,5) show "length (samples_of ''rows_inserted'' (run_trace ?s')) =
        length (samples_of ''rows_deleted'' (run_trace ?s')) + card (in_flight ?s')"
        by (simp add: tr fl samples_of_append)
    qed
    ultimately show ?thesis
      using ok' fin by (simp add: run_inv_def f(1) fl)
  qed
qed

lemma reachable_inv: "crud_reachable s \<Longrightarrow> run_inv s"
  by (induction rule: crud_reachable.induct) (simp_all add: start_inv step_inv tick_inv)

lemma only_ones_total: "only_ones xs \<Longrightarrow> sum_list (map sample_number xs) = int (length xs)"
  by (induction xs) (simp_all add: only_ones_def)


lemma default_crud_blocks:
  "default_crud b inp db =
     (case crud_block b inp AtInsert db of
        (db1, e1, Inl out) \<Rightarrow> (db1, e1, out)
      | (db1, e1, Inr pc1) \<Rightarrow>
          (case crud_block b inp pc1 db1 of
             (db2, e2, Inl out) \<Rightarrow> (db2, e1 @ e2, out)
           | (db2, e2, Inr pc2) \<Rightarrow>
               (case crud_block b inp pc2 db2 of
                  (db3, e3, Inl out) \<Rightarrow> (db3, e1 @ e2 @ e3, out)
                | (db3, e3, Inr pc3) \<Rightarrow>
                    (case crud_block b inp pc3 db3 of
                       (db4, e4, Inl out) \<Rightarrow> (db4, e1 @ e2 @ e3 @ e4, out)
                     | (db4, e4, Inr pc4) \<Rightarrow> (db4, e1 @ e2 @ e3 @ e4, Returned)))))"
proof -
  obtain db1 e1 r1 where i: "crud_insert b inp db = (db1, e1, r1)"
    by (cases "crud_insert b inp db")
  show ?thesis
  proof (cases r1)
    case (Inl out)
    with i show ?thesis by (simp add: default_crud_def)
  next
    case (Inr rid)
    obtain db2 e2 r2 where u: "crud_update b inp rid db1 = (db2, e2, r2)"
      by (cases "crud_update b inp rid db1")
    show ?thesis
    proof (cases r2)
      case (Some err)
      with i Inr u show ?thesis by (simp add: default_crud_def)
    next
      case None
      note upd = None
      obtain db3 e3 r3 where s: "crud_select b inp rid db2 = (db3, e3, r3)"
        by (cases "crud_select b inp rid db2")
      show ?thesis
      proof (cases r3)
        case (Some err)
        with i Inr u upd s show ?thesis by (simp add: default_crud_def)
      next
        case None
        obtain db4 e4 r4 where d: "crud_delete b inp rid db3 = (db4, e4, r4)"
          by (cases "crud_delete b inp rid db3")
        with i Inr u upd s None show ?thesis
          by (cases r4) (simp_all add: default_crud_def)
      qed
    qed
  qed
qed

lemma peak_crud: "peak_vus crud_stages = 50"
  by (simp add: peak_vus_def crud_stages_def)






text \<open>An invocation of the default function by an idle virtual user is four steps of the
  run, or fewer when it ends early; so the loop of one virtual user is a run.\<close>

lemma step_once:
  assumes reach: "crud_reachable s" and v: "1 \<le> v" "v \<le> peak_vus crud_stages"
    and own: "run_pc s v = AtInsert \<or> run_input s v = inp"
    and blk: "crud_block (pg_backend fault) inp (run_pc s v) (run_db s) = (db', evs, nxt)"
  shows "crud_reachable (vu_step v inp fault s)"
    and "run_db (vu_step v inp fault s) = db'"
    and "run_pc (vu_step v inp fault s) =
           (run_pc s)(v := (case nxt of Inl out \<Rightarrow> AtInsert | Inr pc \<Rightarrow> pc))"
    and "run_trace (vu_step v inp fault s) =
           run_trace s @ evs @ (case nxt of Inl (Threw err) \<Rightarrow> [IterationFailed err] | _ \<Rightarrow> [])"
    and "run_input (vu_step v inp fault s) v = inp"
proof -
  from own have i: "(if run_pc s v = AtInsert then inp else run_input s v) = inp" by auto
  show "crud_reachable (vu_step v inp fault s)" using reach v by (rule crud_reachable.step)
  from blk i show "run_db (vu_step v inp fault s) = db'"
    and "run_pc (vu_step v inp fault s) =
           (run_pc s)(v := (case nxt of Inl out \<Rightarrow> AtInsert | Inr pc \<Rightarrow> pc))"
    and "run_trace (vu_step v inp fault s) =
           run_trace s @ evs @ (case nxt of Inl (Threw err) \<Rightarrow> [IterationFailed err] | _ \<Rightarrow> [])"
    and "run_input (vu_step v inp fault s) v = inp"
    by (simp_all add: vu_step_def Let_def)
qed

lemma block_order:
  "crud_block b inp AtInsert db = (db', evs, Inr pc) \<Longrightarrow> \<exists>rid. pc = AtUpdate rid"
  "crud_block b inp (AtUpdate rid) db = (db', evs, Inr pc) \<Longrightarrow> pc = AtSelect rid"
  "crud_block b inp (AtSelect rid) db = (db', evs, Inr pc) \<Longrightarrow> pc = AtDelete rid"
  "crud_block b inp (AtDelete rid) db = (db', evs, nxt) \<Longrightarrow> \<exists>out. nxt = Inl out"
  by (auto split: prod.splits sum.splits option.splits)


lemma invocation_reachable:
  assumes reach: "crud_reachable s" and v: "1 \<le> v" "v \<le> peak_vus crud_stages"
    and idle: "run_pc s v = AtInsert"
  shows "\<exists>s'. crud_reachable s' \<and> run_pc s' = run_pc s \<and>
           run_db s' = fst (default_crud (pg_backend fault) inp (run_db s)) \<and>
           run_trace s' = run_trace s @ fst (snd (default_crud (pg_backend fault) inp (run_db s))) @
             failure_events (snd (snd (default_crud (pg_backend fault) inp (run_db s))))"
proof -
  let ?B = "pg_backend fault"
  have same: "(run_pc s)(v := AtInsert) = run_pc s" using idle by auto
  obtain db1 e1 n1 where b1: "crud_block ?B inp AtInsert (run_db s) = (db1, e1, n1)"
    by (cases "crud_block ?B inp AtInsert (run_db s)")
  let ?s1 = "vu_step v inp fault s"
  have own1: "run_pc s v = AtInsert \<or> run_input s v = inp" using idle by simp
  have b1': "crud_block ?B inp (run_pc s v) (run_db s) = (db1, e1, n1)" using b1 idle by simp
  note s1 = step_once [OF reach v own1 b1']
  show ?thesis
  proof (cases n1)
    case (Inl out)
    with b1 have "default_crud ?B inp (run_db s) = (db1, e1, out)"
      by (simp add: default_crud_blocks)
    with s1 Inl same show ?thesis
      by (intro exI [of _ ?s1]) (simp add: failure_events_def)
  next
    case n1: (Inr pc1)
    from block_order(1) [OF b1 [unfolded n1]] obtain rid where pc1: "pc1 = AtUpdate rid" ..
    have at1: "run_pc ?s1 v = AtUpdate rid" using s1(3) n1 pc1 by simp
    obtain db2 e2 n2 where b2: "crud_block ?B inp (AtUpdate rid) db1 = (db2, e2, n2)"
      by (cases "crud_block ?B inp (AtUpdate rid) db1")
    let ?s2 = "vu_step v inp fault ?s1"
    have b2': "crud_block ?B inp (run_pc ?s1 v) (run_db ?s1) = (db2, e2, n2)"
      using b2 at1 s1(2) by simp
    have own2: "run_pc ?s1 v = AtInsert \<or> run_input ?s1 v = inp" using s1(5) by simp
    note s2 = step_once [OF s1(1) v own2 b2']
    have s2_db: "run_db ?s2 = db2" and
      s2_pc: "run_pc ?s2 = (run_pc s)(v := (case n2 of Inl out \<Rightarrow> AtInsert | Inr pc \<Rightarrow> pc))" and
      s2_tr: "run_trace ?s2 = run_trace s @ e1 @ e2 @
                (case n2 of Inl (Threw err) \<Rightarrow> [IterationFailed err] | _ \<Rightarrow> [])" and
      s2_in: "run_input ?s2 v = inp" and s2_re: "crud_reachable ?s2"
      using s2 s1 n1 by (simp_all add: failure_events_def)
    show ?thesis
    proof (cases n2)
      case (Inl out)
      with b1 n1 pc1 b2 have "default_crud ?B inp (run_db s) = (db2, e1 @ e2, out)"
        by (simp add: default_crud_blocks)
      with s2_db s2_pc s2_tr s2_re Inl same show ?thesis
        by (intro exI [of _ ?s2]) (simp add: failure_events_def)
    next
      case n2: (Inr pc2)
      from block_order(2) [OF b2 [unfolded n2]] have pc2: "pc2 = AtSelect rid" .
      have at2: "run_pc ?s2 v = AtSelect rid" using s2_pc n2 pc2 by simp
      obtain db3 e3 n3 where b3: "crud_block ?B inp (AtSelect rid) db2 = (db3, e3, n3)"
        by (cases "crud_block ?B inp (AtSelect rid) db2")
      let ?s3 = "vu_step v inp fault ?s2"
      have b3': "crud_block ?B inp (run_pc ?s2 v) (run_db ?s2) = (db3, e3, n3)"
        using b3 at2 s2_db by simp
      have own3: "run_pc ?s2 v = AtInsert \<or> run_input ?s2 v = inp" using s2_in by simp
      note s3 = step_once [OF s2_re v own3 b3']
      have s3_db: "run_db ?s3 = db3" and
        s3_pc: "run_pc ?s3 = (run_pc s)(v := (case n3 of Inl out \<Rightarrow> AtInsert | Inr pc \<Rightarrow> pc))" and
        s3_tr: "run_trace ?s3 = run_trace s @ e1 @ e2 @ e3 @
                  (case n3 of Inl (Threw err) \<Rightarrow> [IterationFailed err] | _ \<Rightarrow> [])" and
        s3_in: "run_input ?s3 v = inp" and s3_re: "crud_reachable ?s3"
        using s3 s2_db s2_pc s2_tr s2_in n2 by (simp_all add: failure_events_def)
      show ?thesis
      proof (cases n3)
        case (Inl out)
        with b1 n1 pc1 b2 n2 pc2 b3
        have "default_crud ?B inp (run_db s) = (db3, e1 @ e2 @ e3, out)"
          by (simp add: default_crud_blocks)
        with s3_db s3_pc s3_tr s3_re Inl same show ?thesis
          by (intro exI [of _ ?s3]) (simp add: failure_events_def)
      next
        case n3: (Inr pc3)
        from block_order(3) [OF b3 [unfolded n3]] have pc3: "pc3 = AtDelete rid" .
        have at3: "run_pc ?s3 v = AtDelete rid" using s3_pc n3 pc3 by simp
        obtain db4 e4 n4 where b4: "crud_block ?B inp (AtDelete rid) db3 = (db4, e4, n4)"
          by (cases "crud_block ?B inp (AtDelete rid) db3")
        from block_order(4) [OF b4] obtain out where n4: "n4 = Inl out" ..
        let ?s4 = "vu_step v inp fault ?s3"
        have b4': "crud_block ?B inp (run_pc ?s3 v) (run_db ?s3) = (db4, e4, n4)"
          using b4 at3 s3_db by simp
        have own4: "run_pc ?s3 v = AtInsert \<or> run_input ?s3 v = inp" using s3_in by simp
        note s4 = step_once [OF s3_re v own4 b4']
        have s4_db: "run_db ?s4 = db4" and
          s4_pc: "run_pc ?s4 = run_pc s" and
          s4_tr: "run_trace ?s4 = run_trace s @ e1 @ e2 @ e3 @ e4 @ failure_events out" and
          s4_re: "crud_reachable ?s4"
          using s4 s3_db s3_pc s3_tr s3_in n3 n4 same by (simp_all add: failure_events_def)
        from b1 n1 pc1 b2 n2 pc2 b3 n3 pc3 b4 n4
        have "default_crud ?B inp (run_db s) = (db4, e1 @ e2 @ e3 @ e4, out)"
          by (simp add: default_crud_blocks)
        with s4_db s4_pc s4_tr s4_re show ?thesis
          by (intro exI [of _ ?s4]) (simp add: failure_events_def)
      qed
    qed
  qed
qed

lemma loop_reachable:
  assumes v: "1 \<le> v" "v \<le> peak_vus crud_stages"
  shows "crud_reachable s \<Longrightarrow> run_pc s v = AtInsert \<Longrightarrow>
         \<exists>s'. crud_reachable s' \<and> run_pc s' = run_pc s \<and>
           run_db s' = fst (vu_loop crud_workload inputs (run_db s)) \<and>
           run_trace s' = run_trace s @ snd (vu_loop crud_workload inputs (run_db s))"
proof (induction inputs arbitrary: s)
  case Nil
  then show ?case by (intro exI [of _ s]) simp
next
  case (Cons i inputs)
  obtain inp fault where i: "i = (inp, fault)" by (cases i)
  obtain db1 evs out where d: "default_crud (pg_backend fault) inp (run_db s) = (db1, evs, out)"
    by (cases "default_crud (pg_backend fault) inp (run_db s)")
  from invocation_reachable [OF Cons.prems(1) v Cons.prems(2), of fault inp] d
  obtain s1 where s1: "crud_reachable s1" "run_pc s1 = run_pc s" "run_db s1 = db1"
    "run_trace s1 = run_trace s @ evs @ failure_events out"
    by auto
  from s1(2) Cons.prems(2) have "run_pc s1 v = AtInsert" by simp
  from Cons.IH [OF s1(1) this] obtain s2 where s2: "crud_reachable s2" "run_pc s2 = run_pc s1"
    "run_db s2 = fst (vu_loop crud_workload inputs (run_db s1))"
    "run_trace s2 = run_trace s1 @ snd (vu_loop crud_workload inputs (run_db s1))"
    by blast
  obtain db2 rest where l: "vu_loop crud_workload inputs db1 = (db2, rest)"
    by (cases "vu_loop crud_workload inputs db1")
  have "vu_loop crud_workload (i # inputs) (run_db s) = (db2, evs @ failure_events out @ rest)"
    using i d l by (simp add: crud_workload_def failure_events_def)
  with s1 s2 l show ?case
    by (intro exI [of _ s2]) simp
qed

lemma paired_when_idle:
  assumes inv: "run_inv s" and ok: "failed_iterations (run_trace s) = 0"
    and idle: "\<forall>v. run_pc s v = AtInsert"
  shows "counter_total ''rows_inserted'' (run_trace s) = counter_total ''rows_deleted'' (run_trace s) \<and>
         length (samples_of ''rows_inserted'' (run_trace s)) =
           length (samples_of ''rows_deleted'' (run_trace s)) \<and>
         only_ones (samples_of ''rows_inserted'' (run_trace s)) \<and>
         only_ones (samples_of ''rows_deleted'' (run_trace s))"
proof -
  from idle have "in_flight s = {}" by (simp add: in_flight_def)
  with inv ok have
    len: "length (samples_of ''rows_inserted'' (run_trace s)) =
          length (samples_of ''rows_deleted'' (run_trace s))" and
    i: "only_ones (samples_of ''rows_inserted'' (run_trace s))" and
    d: "only_ones (samples_of ''rows_deleted'' (run_trace s))"
    by (simp_all add: run_inv_def)
  from len only_ones_total [OF i] only_ones_total [OF d]
  have "counter_total ''rows_inserted'' (run_trace s) = counter_total ''rows_deleted'' (run_trace s)"
    by (simp add: counter_total_def)
  with len i d show ?thesis by simp
qed



text \<open>
  In particular for one virtual user running the default function in its loop, one
  invocation after the other: if no iteration failed, the two counters are equal at the
  end.
\<close>

lemma one_after_the_other:
  assumes "failed_iterations (snd (vu_loop crud_workload inputs (setup_crud now))) = 0"
  shows "counter_total ''rows_inserted'' (snd (vu_loop crud_workload inputs (setup_crud now))) =
         counter_total ''rows_deleted'' (snd (vu_loop crud_workload inputs (setup_crud now)))"
proof -
  let ?s = "crud_start now (\<lambda>v. example_person '''')"
  have v: "(1::nat) \<le> 1" "1 \<le> peak_vus crud_stages" by (simp_all add: peak_crud)
  have idle: "\<forall>v. run_pc ?s v = AtInsert" by (simp add: crud_start_def)
  from loop_reachable [OF v crud_reachable.start, of now "\<lambda>v. example_person ''''" inputs] idle
  obtain s' where s': "crud_reachable s'" "run_pc s' = run_pc ?s"
    "run_trace s' = snd (vu_loop crud_workload inputs (setup_crud now))"
    by (auto simp: crud_start_def)
  from s'(2) idle have "\<forall>v. run_pc s' v = AtInsert" by simp
  from paired_when_idle [OF reachable_inv [OF s'(1)] _ this] assms s'(3)
  show ?thesis by simp
qed

text \<open>
  The condition that no iteration failed is needed: when the UPDATE of an invocation throws,
  the insert has been counted, and the row stays in the table with no delete to count.
\<close>

lemma failed_iteration_unpaired:
  "counter_total ''rows_inserted''
     (run_trace (crud_steps update_fails_script (crud_start 0 (\<lambda>v. example_person '''')))) = 1 \<and>
   counter_total ''rows_deleted''
     (run_trace (crud_steps update_fails_script (crud_start 0 (\<lambda>v. example_person '''')))) = 0 \<and>
   failed_iterations
     (run_trace (crud_steps update_fails_script (crud_start 0 (\<lambda>v. example_person '''')))) = 1 \<and>
   run_pc (crud_steps update_fails_script (crud_start 0 (\<lambda>v. example_person ''''))) 1 = AtInsert"
  by (simp add: update_fails_script_def crud_start_def setup_crud_def vu_step_def
      pg_backend_def crud_insert_def crud_update_def example_person_def property_def
      Let_def counter_total_def failed_iterations_def)

end
